theory Spec2Isabelle
  imports Main "HOL-Library.AList"
begin

section \<open>The status command of the PaaSTA client\<close>

text \<open>
  A shallow embedding of \<^verbatim>\<open>paasta_tools/paasta_cli/cmds/status.py\<close>.
  Python strings are \<^typ>\<open>string\<close> (byte strings, as after \<^verbatim>\<open>encode('utf8')\<close>),
  a Python \<^verbatim>\<open>dict\<close> is an association list read with \<^const>\<open>map_of\<close> and written
  with \<^const>\<open>AList.update\<close>, an exception is the \<open>Inl\<close> branch of a sum, and the
  lines printed by a function are returned as a list.
\<close>

subsection \<open>Exceptions\<close>

datatype error =
    ValueError
  | ProbeError string
  | SystemExit nat

subsection \<open>The string methods the module calls\<close>

text \<open>\<^verbatim>\<open>s.split(c)\<close> for a one-character separator: every occurrence of \<open>c\<close> ends a
  part, so the result has one part more than \<open>s\<close> has occurrences of \<open>c\<close>.\<close>

fun str_split :: "char \<Rightarrow> string \<Rightarrow> string list" where
  "str_split c [] = [ [] ]"
| "str_split c (x # xs) =
     (if x = c then [] # str_split c xs
      else (case str_split c xs of
              [] \<Rightarrow> [ [x] ]
            | p # ps \<Rightarrow> (x # p) # ps))"

text \<open>The tuple assignment \<^verbatim>\<open>a, b = parts\<close>: a \<^verbatim>\<open>ValueError\<close> unless \<open>parts\<close> has
  exactly two elements.\<close>

fun unpack2 :: "'a list \<Rightarrow> error + ('a \<times> 'a)" where
  "unpack2 [a, b] = Inr (a, b)"
| "unpack2 _ = Inl ValueError"

text \<open>\<^verbatim>\<open>s.rfind(c)\<close>: the highest index at which \<open>c\<close> occurs in \<open>s\<close>, or \<open>-1\<close>.\<close>

fun rfind :: "char \<Rightarrow> string \<Rightarrow> int" where
  "rfind c [] = - 1"
| "rfind c (x # xs) =
     (let r = rfind c xs
      in if 0 \<le> r then r + 1 else if x = c then 0 else - 1)"

text \<open>The slice \<^verbatim>\<open>s[i:]\<close>; a negative \<open>i\<close> counts from the end and is clipped at
  the start of the string.\<close>

definition slice_from :: "string \<Rightarrow> int \<Rightarrow> string" where
  "slice_from s i = (if i < 0 then drop (nat (int (length s) + i)) s else drop (nat i) s)"

text \<open>\<^verbatim>\<open>s.replace(old, new, 1)\<close>: the leftmost occurrence of \<open>old\<close> in \<open>s\<close>, wherever
  it is, is replaced by \<open>new\<close>; a string without \<open>old\<close> is returned as it is.\<close>

fun replace_first :: "string \<Rightarrow> string \<Rightarrow> string \<Rightarrow> string" where
  "replace_first old new [] = (if old = [] then new else [])"
| "replace_first old new (x # xs) =
     (if take (length old) (x # xs) = old then new @ drop (length old) (x # xs)
      else x # replace_first old new xs)"

text \<open>\<^verbatim>\<open>s.rstrip()\<close> of a byte string removes trailing ASCII whitespace.\<close>

definition is_space :: "char \<Rightarrow> bool" where
  "is_space c = (c \<in> set [CHR '' '', CHR 0x09, CHR 0x0A, CHR 0x0B, CHR 0x0C, CHR 0x0D])"

definition rstrip :: "string \<Rightarrow> string" where
  "rstrip s = rev (dropWhile is_space (rev s))"

text \<open>\<^verbatim>\<open>sep.join(xs)\<close>.\<close>

fun join :: "string \<Rightarrow> string list \<Rightarrow> string" where
  "join sep [] = []"
| "join sep [x] = x"
| "join sep (x # y # ys) = x @ sep @ join sep (y # ys)"

subsection \<open>Data\<close>

type_synonym dict = "(string \<times> string) list"

text \<open>\<^verbatim>\<open>key in d\<close> for a dictionary \<open>d\<close>.\<close>

definition has_key :: "dict \<Rightarrow> string \<Rightarrow> bool" where
  "has_key d k = (map_of d k \<noteq> None)"

text \<open>A step of the pipeline in \<^verbatim>\<open>deploy.yaml\<close>, and the parsed file.\<close>

record entry =
  instancename :: string

record deploy_info =
  pipeline :: "entry list"

text \<open>The command-line arguments that \<^verbatim>\<open>paasta_status\<close> reads.\<close>

record args =
  args_service :: "string option"
  args_clusters :: "string option"
  args_verbose :: bool

text \<open>
  The names that \<^verbatim>\<open>status.py\<close> imports from other modules are parameters of the
  model. \<open>execute_paasta_serviceinit_on_remote_master\<close> is the remote status probe:
  it returns the status text or raises. \<open>load_deployments_json\<close> gives the
  deployments of a service as pairs of key and \<^verbatim>\<open>docker_image\<close>, in the iteration
  order of the dictionary; \<open>read_deploy\<close> gives the parsed \<^verbatim>\<open>deploy.yaml\<close> of a
  service, \<open>None\<close> standing for a missing or empty file.
\<close>

record collaborators =
  DEPLOY_PIPELINE_NON_DEPLOY_STEPS :: "string list"
  execute_paasta_serviceinit_on_remote_master ::
    "string \<Rightarrow> string \<Rightarrow> string \<Rightarrow> string \<Rightarrow> bool \<Rightarrow> error + string"
  figure_out_service_name :: "args \<Rightarrow> string"
  load_deployments_json :: "string \<Rightarrow> (string \<times> string) list"
  read_deploy :: "string \<Rightarrow> deploy_info option"
  get_pipeline_url :: "string \<Rightarrow> string"
  blue :: "string \<Rightarrow> string"
  red :: "string \<Rightarrow> string"
  cyan :: "string \<Rightarrow> string"
  x_mark :: string
  DEPLOY_YAML_MISSING :: string

definition newline :: string where
  "newline = [CHR 0x0A]"

subsection \<open>\<^verbatim>\<open>missing_deployments_message\<close> and \<^verbatim>\<open>get_deploy_info\<close>\<close>

definition missing_deployments_message :: "collaborators \<Rightarrow> string \<Rightarrow> string" where
  "missing_deployments_message env service_name =
     (let jenkins_url = cyan env (''https://jenkins.yelpcorp.com/view/services-'' @ service_name)
      in x_mark env @ '' No deployments in deployments.json yet.'' @ newline @ ''  ''
         @ ''Has Jenkins run?'' @ newline @ ''  ''
         @ ''Check: '' @ jenkins_url)"

text \<open>A function that prints returns the printed lines with its result; \<^verbatim>\<open>exit(1)\<close>
  is the exception \<open>SystemExit 1\<close>.\<close>

definition get_deploy_info :: "collaborators \<Rightarrow> string \<Rightarrow> string list \<times> (error + deploy_info)" where
  "get_deploy_info env service_name =
     (case read_deploy env service_name of
        None \<Rightarrow> ([DEPLOY_YAML_MISSING env], Inl (SystemExit 1))
      | Some deploy_info \<Rightarrow> ([], Inr deploy_info))"

subsection \<open>\<^verbatim>\<open>get_planned_deployments\<close>\<close>

text \<open>\<^verbatim>\<open>cluster_dict.setdefault(cluster, []).append(instance)\<close> on an ordered
  dictionary: a new cluster is added at the end.\<close>

fun setdefault_append ::
  "(string \<times> string list) list \<Rightarrow> string \<Rightarrow> string \<Rightarrow> (string \<times> string list) list" where
  "setdefault_append [] cluster instance = [(cluster, [instance])]"
| "setdefault_append ((c, instances) # rest) cluster instance =
     (if c = cluster then (c, instances @ [instance]) # rest
      else (c, instances) # setdefault_append rest cluster instance)"

text \<open>The first loop, over \<^verbatim>\<open>deploy_info['pipeline']\<close>.\<close>

fun planned_loop ::
  "string list \<Rightarrow> entry list \<Rightarrow> (string \<times> string list) list \<Rightarrow> error + (string \<times> string list) list" where
  "planned_loop non_deploy [] cluster_dict = Inr cluster_dict"
| "planned_loop non_deploy (entry # rest) cluster_dict =
     (let namespace = instancename entry
      in if namespace \<notin> set non_deploy
         then (case unpack2 (str_split CHR ''.'' namespace) of
                 Inl e \<Rightarrow> Inl e
               | Inr (cluster, instance) \<Rightarrow>
                   planned_loop non_deploy rest (setdefault_append cluster_dict cluster instance))
         else planned_loop non_deploy rest cluster_dict)"

text \<open>The second loop: what the generator yields.\<close>

fun planned_yield :: "(string \<times> string list) list \<Rightarrow> string list" where
  "planned_yield [] = []"
| "planned_yield ((cluster, instances) # rest) =
     map (\<lambda>instance. cluster @ ''.'' @ instance) instances @ planned_yield rest"

text \<open>The generator as \<^verbatim>\<open>paasta_status\<close> consumes it, with \<^verbatim>\<open>list(...)\<close>: the
  list of everything it yields, or the exception of the first loop.\<close>

definition get_planned_deployments :: "collaborators \<Rightarrow> deploy_info \<Rightarrow> error + string list" where
  "get_planned_deployments env deploy_info =
     (case planned_loop (DEPLOY_PIPELINE_NON_DEPLOY_STEPS env) (pipeline deploy_info) [] of
        Inl e \<Rightarrow> Inl e
      | Inr cluster_dict \<Rightarrow> Inr (planned_yield cluster_dict))"

subsection \<open>\<^verbatim>\<open>list_deployed_clusters\<close>\<close>

text \<open>The loop of \<^verbatim>\<open>list_deployed_clusters\<close>; the third argument is the list
  \<^verbatim>\<open>deployed_clusters\<close> built so far.\<close>

fun list_deployed_clusters_loop :: "string list \<Rightarrow> dict \<Rightarrow> string list \<Rightarrow> error + string list" where
  "list_deployed_clusters_loop [] actual_deployments deployed_clusters = Inr deployed_clusters"
| "list_deployed_clusters_loop (namespace # rest) actual_deployments deployed_clusters =
     (case unpack2 (str_split CHR ''.'' namespace) of
        Inl e \<Rightarrow> Inl e
      | Inr (cluster_name, instance) \<Rightarrow>
          if has_key actual_deployments namespace
          then (if cluster_name \<notin> set deployed_clusters
                then list_deployed_clusters_loop rest actual_deployments (deployed_clusters @ [cluster_name])
                else list_deployed_clusters_loop rest actual_deployments deployed_clusters)
          else list_deployed_clusters_loop rest actual_deployments deployed_clusters)"

definition list_deployed_clusters :: "string list \<Rightarrow> dict \<Rightarrow> error + string list" where
  "list_deployed_clusters deploy_pipeline actual_deployments =
     list_deployed_clusters_loop deploy_pipeline actual_deployments []"

subsection \<open>\<^verbatim>\<open>get_actual_deployments\<close>\<close>

fun get_actual_deployments_loop :: "(string \<times> string) list \<Rightarrow> string \<Rightarrow> dict \<Rightarrow> error + dict" where
  "get_actual_deployments_loop [] service_name actual_deployments = Inr actual_deployments"
| "get_actual_deployments_loop ((key, docker_image) # rest) service_name actual_deployments =
     (case unpack2 (str_split CHR '':'' key) of
        Inl e \<Rightarrow> Inl e
      | Inr (service, namespace) \<Rightarrow>
          if service = service_name
          then (let value = docker_image;
                    sha = slice_from value (rfind CHR ''-'' value + 1)
                in get_actual_deployments_loop rest service_name
                     (AList.update (replace_first ''paasta-'' [] namespace) sha actual_deployments))
          else get_actual_deployments_loop rest service_name actual_deployments)"

text \<open>The first component is what is written to \<^verbatim>\<open>sys.stderr\<close>.\<close>

definition get_actual_deployments ::
  "collaborators \<Rightarrow> string \<Rightarrow> string list \<times> (error + dict)" where
  "get_actual_deployments env service_name =
     (let deployments_json = load_deployments_json env service_name
      in ((if deployments_json = []
           then [''Warning: it looks like '' @ service_name @ '' has not been deployed anywhere yet!'']
           else []),
          get_actual_deployments_loop deployments_json service_name []))"

subsection \<open>\<^verbatim>\<open>report_status_for_cluster\<close>\<close>

text \<open>The three \<^verbatim>\<open>print\<close> statements at the end of the loop body.\<close>

definition print_instance :: "string \<Rightarrow> string \<Rightarrow> string option \<Rightarrow> string list" where
  "print_instance instance version status =
     [''  instance: '' @ instance, ''    Git sha:    '' @ version]
     @ (case status of
          None \<Rightarrow> []
        | Some st \<Rightarrow> map (\<lambda>line. ''    '' @ line) (str_split CHR 0x0A (rstrip st)))"

text \<open>The loop over \<^verbatim>\<open>deploy_pipeline\<close>. An exception ends it: the lines printed so
  far stay printed and the exception is the second component.\<close>

fun report_status_for_cluster_loop ::
  "collaborators \<Rightarrow> string \<Rightarrow> string \<Rightarrow> string list \<Rightarrow> dict \<Rightarrow> bool \<Rightarrow> string list \<times> error option" where
  "report_status_for_cluster_loop env service cluster [] actual_deployments verbose = ([], None)"
| "report_status_for_cluster_loop env service cluster (namespace # rest) actual_deployments verbose =
     (case unpack2 (str_split CHR ''.'' namespace) of
        Inl e \<Rightarrow> ([], Some e)
      | Inr (cluster_in_pipeline, instance) \<Rightarrow>
          if cluster_in_pipeline \<noteq> cluster
          then report_status_for_cluster_loop env service cluster rest actual_deployments verbose
          else (case map_of actual_deployments namespace of
                  Some v \<Rightarrow>
                    (let version = take 8 v
                     in case execute_paasta_serviceinit_on_remote_master env
                               ''status'' cluster service instance verbose of
                          Inl e \<Rightarrow> ([], Some e)
                        | Inr status \<Rightarrow>
                            (case report_status_for_cluster_loop env service cluster rest
                                    actual_deployments verbose of
                               (out, r) \<Rightarrow>
                                 (print_instance (blue env instance) version (Some status) @ out, r)))
                | None \<Rightarrow>
                    (case report_status_for_cluster_loop env service cluster rest
                            actual_deployments verbose of
                       (out, r) \<Rightarrow> (print_instance (red env instance) ''None'' None @ out, r))))"

definition report_status_for_cluster ::
  "collaborators \<Rightarrow> string \<Rightarrow> string \<Rightarrow> string list \<Rightarrow> dict \<Rightarrow> bool \<Rightarrow> string list \<times> error option" where
  "report_status_for_cluster env service cluster deploy_pipeline actual_deployments verbose =
     (case report_status_for_cluster_loop env service cluster deploy_pipeline
             actual_deployments verbose of
        (out, r) \<Rightarrow> ([ [], ''cluster: '' @ cluster] @ out, r))"

subsection \<open>\<^verbatim>\<open>report_bogus_filters\<close>\<close>

fun report_bogus_filters_loop :: "string list \<Rightarrow> string list \<Rightarrow> string list \<Rightarrow> string list" where
  "report_bogus_filters_loop [] deployed_clusters bogus_clusters = bogus_clusters"
| "report_bogus_filters_loop (c # rest) deployed_clusters bogus_clusters =
     (if c \<notin> set deployed_clusters
      then report_bogus_filters_loop rest deployed_clusters (bogus_clusters @ [c])
      else report_bogus_filters_loop rest deployed_clusters bogus_clusters)"

definition bogus_warning :: string where
  "bogus_warning =
     newline @ ''Warning: The following clusters in the filter look bogus, this service''
     @ newline @ ''is not deployed to the following cluster(s):'' @ newline"

definition report_bogus_filters :: "string list option \<Rightarrow> string list \<Rightarrow> string" where
  "report_bogus_filters cluster_filter deployed_clusters =
     (case cluster_filter of
        None \<Rightarrow> []
      | Some cf \<Rightarrow>
          (let bogus_clusters = report_bogus_filters_loop cf deployed_clusters []
           in if length bogus_clusters > 0
              then bogus_warning @ join '','' bogus_clusters
              else []))"

subsection \<open>\<^verbatim>\<open>report_status\<close> and \<^verbatim>\<open>paasta_status\<close>\<close>

fun report_status_loop ::
  "collaborators \<Rightarrow> string \<Rightarrow> string list \<Rightarrow> string list \<Rightarrow> dict \<Rightarrow> string list option \<Rightarrow> bool
   \<Rightarrow> string list \<times> error option" where
  "report_status_loop env service_name [] deploy_pipeline actual_deployments cluster_filter verbose =
     ([], None)"
| "report_status_loop env service_name (cluster # rest) deploy_pipeline actual_deployments
     cluster_filter verbose =
     (if (case cluster_filter of None \<Rightarrow> True | Some cf \<Rightarrow> cluster \<in> set cf)
      then (case report_status_for_cluster env service_name cluster deploy_pipeline
                   actual_deployments verbose of
              (out, Some e) \<Rightarrow> (out, Some e)
            | (out, None) \<Rightarrow>
                (case report_status_loop env service_name rest deploy_pipeline actual_deployments
                        cluster_filter verbose of
                   (out', r) \<Rightarrow> (out @ out', r)))
      else report_status_loop env service_name rest deploy_pipeline actual_deployments
             cluster_filter verbose)"

definition report_status ::
  "collaborators \<Rightarrow> string \<Rightarrow> string list \<Rightarrow> dict \<Rightarrow> string list option \<Rightarrow> bool
   \<Rightarrow> string list \<times> error option" where
  "report_status env service_name deploy_pipeline actual_deployments cluster_filter verbose =
     (let pipeline_url = get_pipeline_url env service_name;
          line = ''Pipeline: '' @ pipeline_url
      in case list_deployed_clusters deploy_pipeline actual_deployments of
           Inl e \<Rightarrow> ([line], Some e)
         | Inr deployed_clusters \<Rightarrow>
             (case report_status_loop env service_name deployed_clusters deploy_pipeline
                     actual_deployments cluster_filter verbose of
                (out, Some e) \<Rightarrow> (line # out, Some e)
              | (out, None) \<Rightarrow>
                  (line # out @ [report_bogus_filters cluster_filter deployed_clusters], None)))"

text \<open>The result of \<^verbatim>\<open>paasta_status\<close>: what it printed, what it wrote to
  \<^verbatim>\<open>sys.stderr\<close>, and the exception that ended it, if any.\<close>

record outcome =
  stdout :: "string list"
  stderr :: "string list"
  raised :: "error option"

definition paasta_status :: "collaborators \<Rightarrow> args \<Rightarrow> outcome" where
  "paasta_status env args =
     (let service_name = figure_out_service_name env args
      in case get_actual_deployments env service_name of
           (err, Inl e) \<Rightarrow> \<lparr>stdout = [], stderr = err, raised = Some e\<rparr>
         | (err, Inr actual_deployments) \<Rightarrow>
             (case get_deploy_info env service_name of
                (out, Inl e) \<Rightarrow> \<lparr>stdout = out, stderr = err, raised = Some e\<rparr>
              | (out, Inr deploy_info) \<Rightarrow>
                  (let cluster_filter =
                         (case args_clusters args of
                            Some c \<Rightarrow> Some (str_split CHR '','' c)
                          | None \<Rightarrow> None)
                   in if actual_deployments \<noteq> []
                      then (case get_planned_deployments env deploy_info of
                              Inl e \<Rightarrow> \<lparr>stdout = out, stderr = err, raised = Some e\<rparr>
                            | Inr deploy_pipeline \<Rightarrow>
                                (case report_status env service_name deploy_pipeline
                                        actual_deployments cluster_filter (args_verbose args) of
                                   (out', r) \<Rightarrow>
                                     \<lparr>stdout = out @ out', stderr = err, raised = r\<rparr>))
                      else \<lparr>stdout = out @ [missing_deployments_message env service_name],
                             stderr = err, raised = None\<rparr>)))"

subsection \<open>Vocabulary of the specification\<close>

text \<open>A namespace is well formed when it contains exactly one \<open>.\<close> separator.\<close>

definition one_dot :: "string \<Rightarrow> bool" where
  "one_dot s = (count_list s CHR ''.'' = 1)"

text \<open>The cluster of a namespace is the part before the first \<open>.\<close>, its instance the
  part after it.\<close>

definition cluster_of :: "string \<Rightarrow> string" where
  "cluster_of s = takeWhile (\<lambda>x. x \<noteq> CHR ''.'') s"

definition instance_of :: "string \<Rightarrow> string" where
  "instance_of s = tl (dropWhile (\<lambda>x. x \<noteq> CHR ''.'') s)"

text \<open>The elements of a list in order of first appearance, each once.\<close>

fun first_occurrences :: "'a list \<Rightarrow> 'a list" where
  "first_occurrences [] = []"
| "first_occurrences (x # xs) = x # filter (\<lambda>y. y \<noteq> x) (first_occurrences xs)"

text \<open>The namespaces of the deploy steps of a pipeline: those not in
  \<^verbatim>\<open>DEPLOY_PIPELINE_NON_DEPLOY_STEPS\<close>, in the order of the file.\<close>

definition deploy_steps :: "collaborators \<Rightarrow> deploy_info \<Rightarrow> string list" where
  "deploy_steps env di =
     filter (\<lambda>n. n \<notin> set (DEPLOY_PIPELINE_NON_DEPLOY_STEPS env)) (map instancename (pipeline di))"

text \<open>Namespaces grouped by cluster: the clusters in order of first appearance, and
  under each cluster its namespaces in their order, duplicates kept.\<close>

definition grouped :: "string list \<Rightarrow> string list" where
  "grouped ns =
     concat (map (\<lambda>c. filter (\<lambda>t. cluster_of t = c) ns) (first_occurrences (map cluster_of ns)))"

text \<open>The ordered dictionary from cluster to instances that these namespaces describe.\<close>

definition cluster_dict_of :: "string list \<Rightarrow> (string \<times> string list) list" where
  "cluster_dict_of ns =
     map (\<lambda>c. (c, map instance_of (filter (\<lambda>t. cluster_of t = c) ns)))
       (first_occurrences (map cluster_of ns))"

text \<open>A key of \<^verbatim>\<open>deployments.json\<close> is well formed when it contains exactly one \<open>:\<close>;
  the service is the part before it, the namespace the part after it.\<close>

definition one_colon :: "string \<Rightarrow> bool" where
  "one_colon k = (count_list k CHR '':'' = 1)"

definition service_of :: "string \<Rightarrow> string" where
  "service_of k = takeWhile (\<lambda>x. x \<noteq> CHR '':'') k"

definition namespace_of :: "string \<Rightarrow> string" where
  "namespace_of k = tl (dropWhile (\<lambda>x. x \<noteq> CHR '':'') k)"

text \<open>The version of an image reference: what follows its last \<open>-\<close>, or all of it
  when it has none.\<close>

definition version_of :: "string \<Rightarrow> string" where
  "version_of docker_image =
     (if CHR ''-'' \<in> set docker_image then rev (takeWhile (\<lambda>x. x \<noteq> CHR ''-'') (rev docker_image)) else docker_image)"

text \<open>Stripping \<open>paasta-\<close> as a prefix only, as the specification words it.\<close>

definition strip_paasta_prefix :: "string \<Rightarrow> string" where
  "strip_paasta_prefix ns = (if take 7 ns = ''paasta-'' then drop 7 ns else ns)"

text \<open>\<open>old\<close> occurs in \<open>s\<close> at index \<open>i\<close>.\<close>

definition occurs_at :: "string \<Rightarrow> string \<Rightarrow> nat \<Rightarrow> bool" where
  "occurs_at old s i = (i + length old \<le> length s \<and> take (length old) (drop i s) = old)"

text \<open>The entries of a raw record that belong to a service, and what
  \<^verbatim>\<open>get_actual_deployments\<close> stores for an entry.\<close>

definition retained :: "(string \<times> string) list \<Rightarrow> string \<Rightarrow> (string \<times> string) list" where
  "retained deployments_json service_name =
     filter (\<lambda>(key, docker_image). service_of key = service_name) deployments_json"

definition stored :: "string \<times> string \<Rightarrow> string \<times> string" where
  "stored entry =
     (replace_first ''paasta-'' [] (namespace_of (fst entry)), version_of (snd entry))"

text \<open>The status of one target: deployed, with a version and the text of the probe, or
  not deployed.\<close>

datatype instance_status_line =
    Deployed string string
  | NotDeployed

text \<open>What \<^verbatim>\<open>report_status_for_cluster\<close> prints for an instance with a given status.\<close>

definition render_status_line :: "collaborators \<Rightarrow> string \<Rightarrow> instance_status_line \<Rightarrow> string list" where
  "render_status_line env instance l =
     (case l of
        Deployed version status \<Rightarrow> print_instance (blue env instance) version (Some status)
      | NotDeployed \<Rightarrow> print_instance (red env instance) ''None'' None)"

text \<open>The classification of a target as the specification words it: the version is
  the value stored for the target. \<open>status\<close> is the text the probe returned.\<close>

definition classify_line :: "dict \<Rightarrow> string \<Rightarrow> string \<Rightarrow> instance_status_line" where
  "classify_line actual target status =
     (case map_of actual target of
        Some v \<Rightarrow> Deployed v status
      | None \<Rightarrow> NotDeployed)"

text \<open>The classification with the version cut to its first eight characters.\<close>

definition short_classify_line :: "dict \<Rightarrow> string \<Rightarrow> string \<Rightarrow> instance_status_line" where
  "short_classify_line actual target status =
     (case map_of actual target of
        Some v \<Rightarrow> Deployed (take 8 v) status
      | None \<Rightarrow> NotDeployed)"

text \<open>A cluster passes the filter of \<^verbatim>\<open>report_status\<close>.\<close>

definition passes :: "string list option \<Rightarrow> string \<Rightarrow> bool" where
  "passes cluster_filter cluster =
     (case cluster_filter of None \<Rightarrow> True | Some cf \<Rightarrow> cluster \<in> set cf)"

subsection \<open>Stub collaborators for concrete runs\<close>

text \<open>Collaborators as a test would stub them: no colours, a probe that answers
  \<open>ok\<close>, no files.\<close>

definition stub_collaborators :: collaborators where
  "stub_collaborators =
     \<lparr>DEPLOY_PIPELINE_NON_DEPLOY_STEPS = [''itest''],
      execute_paasta_serviceinit_on_remote_master = (\<lambda>subcommand cluster service instance verbose. Inr ''ok''),
      figure_out_service_name = (\<lambda>args. case args_service args of Some s \<Rightarrow> s | None \<Rightarrow> ''myservice''),
      load_deployments_json = (\<lambda>service_name. []),
      read_deploy = (\<lambda>service_name. None),
      get_pipeline_url = (\<lambda>service_name. ''https://jenkins.yelpcorp.com/view/services-'' @ service_name),
      blue = (\<lambda>s. s),
      red = (\<lambda>s. s),
      cyan = (\<lambda>s. s),
      x_mark = ''x'',
      DEPLOY_YAML_MISSING = ''deploy.yaml missing''\<rparr>"

section \<open>Properties\<close>

subsection \<open>Splitting\<close>

lemma str_split_not_Nil: "str_split c s \<noteq> []"
  by (induction s) (auto split: list.splits)

lemma length_str_split: "length (str_split c s) = Suc (count_list s c)"
  by (induction s) (auto split: list.splits simp: str_split_not_Nil)

lemma str_split_no_sep: "c \<notin> set s \<Longrightarrow> str_split c s = [s]"
  by (induction s) auto

lemma str_split_first:
  "c \<in> set s \<Longrightarrow>
   str_split c s = takeWhile (\<lambda>x. x \<noteq> c) s # str_split c (tl (dropWhile (\<lambda>x. x \<noteq> c) s))"
  by (induction s) (auto split: list.splits simp: str_split_not_Nil str_split_no_sep)

lemma count_list_0_iff': "count_list s c = 0 \<longleftrightarrow> c \<notin> set s"
  by (induction s) auto

lemma count_list_tl_dropWhile:
  "c \<in> set s \<Longrightarrow> count_list s c = Suc (count_list (tl (dropWhile (\<lambda>x. x \<noteq> c) s)) c)"
  by (induction s) auto

lemma str_split_one_sep:
  assumes "count_list s c = 1"
  shows "str_split c s = [takeWhile (\<lambda>x. x \<noteq> c) s, tl (dropWhile (\<lambda>x. x \<noteq> c) s)]"
proof -
  from assms have in_s: "c \<in> set s"
    using count_list_0_iff' [of s c] by simp
  with assms have "count_list (tl (dropWhile (\<lambda>x. x \<noteq> c) s)) c = 0"
    using count_list_tl_dropWhile [of c s] by simp
  then have "c \<notin> set (tl (dropWhile (\<lambda>x. x \<noteq> c) s))"
    by (simp add: count_list_0_iff')
  then show ?thesis
    using in_s by (simp add: str_split_first str_split_no_sep)
qed

lemma unpack2_fails: "length xs \<noteq> 2 \<Longrightarrow> unpack2 xs = Inl ValueError"
  by (cases xs rule: unpack2.cases) auto

lemma unpack2_split_dot:
  "one_dot s \<Longrightarrow> unpack2 (str_split CHR ''.'' s) = Inr (cluster_of s, instance_of s)"
  by (simp add: one_dot_def str_split_one_sep cluster_of_def instance_of_def)

lemma unpack2_split_dot_fails:
  "\<not> one_dot s \<Longrightarrow> unpack2 (str_split CHR ''.'' s) = Inl ValueError"
  by (rule unpack2_fails) (simp add: length_str_split one_dot_def)

subsection \<open>First occurrences\<close>

lemma set_first_occurrences: "set (first_occurrences xs) = set xs"
  by (induction xs) auto

lemma distinct_first_occurrences: "distinct (first_occurrences xs)"
  by (induction xs) auto

subsection \<open>The deployed clusters\<close>

lemma filter_absorb_member:
  "x \<in> A \<Longrightarrow> filter (\<lambda>c. c \<noteq> x \<and> c \<notin> A) xs = filter (\<lambda>c. c \<notin> A) xs"
  by (induction xs) auto

lemma list_deployed_clusters_loop_ok:
  "\<forall>t\<in>set ts. one_dot t \<Longrightarrow>
   list_deployed_clusters_loop ts actual acc =
   Inr (acc @ filter (\<lambda>c. c \<notin> set acc)
                (first_occurrences (map cluster_of (filter (has_key actual) ts))))"
proof (induction ts arbitrary: acc)
  case Nil
  then show ?case by simp
next
  case (Cons t ts)
  then have t: "unpack2 (str_split CHR ''.'' t) = Inr (cluster_of t, instance_of t)"
    by (simp add: unpack2_split_dot)
  from Cons have IH: "\<And>acc. list_deployed_clusters_loop ts actual acc =
   Inr (acc @ filter (\<lambda>c. c \<notin> set acc)
                (first_occurrences (map cluster_of (filter (has_key actual) ts))))"
    by simp
  show ?case
  proof (cases "has_key actual t")
    case False
    then show ?thesis by (simp add: t IH)
  next
    case True
    show ?thesis
    proof (cases "cluster_of t \<in> set acc")
      case True
      with \<open>has_key actual t\<close> show ?thesis
        by (simp add: t IH filter_absorb_member)
    next
      case False
      have "filter (\<lambda>c. c \<noteq> cluster_of t \<and> c \<notin> set acc) xs
            = filter (\<lambda>c. c \<notin> set acc \<and> c \<noteq> cluster_of t) xs" for xs
        by (induction xs) auto
      with False \<open>has_key actual t\<close> show ?thesis
        by (simp add: t IH)
    qed
  qed
qed

lemma list_deployed_clusters_loop_fails:
  "\<exists>t\<in>set ts. \<not> one_dot t \<Longrightarrow> list_deployed_clusters_loop ts actual acc = Inl ValueError"
proof (induction ts arbitrary: acc)
  case Nil
  then show ?case by simp
next
  case (Cons t ts)
  show ?case
  proof (cases "one_dot t")
    case True
    with Cons show ?thesis by (simp add: unpack2_split_dot)
  next
    case False
    then show ?thesis by (simp add: unpack2_split_dot_fails)
  qed
qed

lemma list_deployed_clusters_ok:
  "\<forall>t\<in>set ts. one_dot t \<Longrightarrow>
   list_deployed_clusters ts actual =
   Inr (first_occurrences (map cluster_of (filter (has_key actual) ts)))"
  by (simp add: list_deployed_clusters_def list_deployed_clusters_loop_ok)

text \<open>
  Claim C1. On a sequence of flat targets, each of the form \<open>cluster.instance\<close>,
  \<^verbatim>\<open>list_deployed_clusters\<close> returns the clusters of the targets that are keys of the
  actual deployments, in order of first appearance and without duplicates; a cluster
  is in the result if and only if one of its targets is a key.
\<close>

theorem list_deployed_clusters_first_appearance:
  assumes "\<forall>t\<in>set targets. one_dot t"
  shows "\<exists>r. list_deployed_clusters targets actual = Inr r
           \<and> r = first_occurrences (map cluster_of (filter (has_key actual) targets))
           \<and> distinct r
           \<and> (\<forall>c. c \<in> set r \<longleftrightarrow> (\<exists>t\<in>set targets. cluster_of t = c \<and> has_key actual t))"
proof -
  let ?r = "first_occurrences (map cluster_of (filter (has_key actual) targets))"
  have "list_deployed_clusters targets actual = Inr ?r"
    using assms by (rule list_deployed_clusters_ok)
  moreover have "distinct ?r"
    by (rule distinct_first_occurrences)
  moreover have "\<forall>c. c \<in> set ?r \<longleftrightarrow> (\<exists>t\<in>set targets. cluster_of t = c \<and> has_key actual t)"
    by (auto simp: set_first_occurrences)
  ultimately show ?thesis by blast
qed

theorem list_deployed_clusters_first_appearance_witness:
  "one_dot ''norcal-prod.main'' \<and> one_dot ''nova-prod.main'' \<and> one_dot ''norcal-prod.canary''
   \<and> list_deployed_clusters [''norcal-prod.main'', ''nova-prod.main'', ''norcal-prod.canary'']
        [(''norcal-prod.canary'', ''a1b2c3d4''), (''norcal-prod.main'', ''a1b2c3d4'')]
      = Inr [''norcal-prod'']"
  using list_deployed_clusters_first_appearance
    [of "[''norcal-prod.main'', ''nova-prod.main'', ''norcal-prod.canary'']"
        "[(''norcal-prod.canary'', ''a1b2c3d4''), (''norcal-prod.main'', ''a1b2c3d4'')]"]
  by (simp add: one_dot_def cluster_of_def has_key_def)

subsection \<open>Malformed targets\<close>

lemma report_status_for_cluster_loop_fails:
  "\<exists>t\<in>set ts. \<not> one_dot t \<Longrightarrow>
   snd (report_status_for_cluster_loop env service cluster ts actual verbose) \<noteq> None"
proof (induction ts)
  case Nil
  then show ?case by simp
next
  case (Cons t ts)
  show ?case
  proof (cases "one_dot t")
    case False
    then show ?thesis by (simp add: unpack2_split_dot_fails)
  next
    case True
    with Cons have "snd (report_status_for_cluster_loop env service cluster ts actual verbose) \<noteq> None"
      by simp
    then obtain out e where
      "report_status_for_cluster_loop env service cluster ts actual verbose = (out, Some e)"
      by (cases "report_status_for_cluster_loop env service cluster ts actual verbose") auto
    with True show ?thesis
      by (simp add: unpack2_split_dot split: option.splits sum.splits)
  qed
qed

lemma report_status_for_cluster_fails:
  "\<exists>t\<in>set ts. \<not> one_dot t \<Longrightarrow>
   snd (report_status_for_cluster env service cluster ts actual verbose) \<noteq> None"
  using report_status_for_cluster_loop_fails [of ts env service cluster actual verbose]
  by (cases "report_status_for_cluster_loop env service cluster ts actual verbose")
     (simp add: report_status_for_cluster_def)

lemma list_deployed_clusters_fails:
  "\<exists>t\<in>set ts. \<not> one_dot t \<Longrightarrow> list_deployed_clusters ts actual = Inl ValueError"
  by (simp add: list_deployed_clusters_def list_deployed_clusters_loop_fails)

lemma report_status_fails:
  "\<exists>t\<in>set ts. \<not> one_dot t \<Longrightarrow>
   report_status env service ts actual cluster_filter verbose
   = ([''Pipeline: '' @ get_pipeline_url env service], Some ValueError)"
  by (simp add: report_status_def list_deployed_clusters_fails)

text \<open>
  Claim C10. \<^verbatim>\<open>list_deployed_clusters\<close> and \<^verbatim>\<open>report_status_for_cluster\<close> split
  every target before they look at the actual deployments or at the cluster: the first
  returns if and only if every target has exactly one \<open>.\<close>, the second returns only
  then, and one malformed target anywhere makes both, and the whole report, raise.
\<close>

theorem malformed_target_fails_report:
  "((\<exists>r. list_deployed_clusters targets actual = Inr r) \<longleftrightarrow> (\<forall>t\<in>set targets. one_dot t))
   \<and> (snd (report_status_for_cluster env service cluster targets actual verbose) = None
        \<longrightarrow> (\<forall>t\<in>set targets. one_dot t))
   \<and> ((\<exists>t\<in>set targets. \<not> one_dot t) \<longrightarrow>
         list_deployed_clusters targets actual = Inl ValueError
         \<and> snd (report_status_for_cluster env service cluster targets actual verbose) \<noteq> None
         \<and> report_status env service targets actual cluster_filter verbose
             = ([''Pipeline: '' @ get_pipeline_url env service], Some ValueError))"
proof (intro conjI impI)
  show "(\<exists>r. list_deployed_clusters targets actual = Inr r) \<longleftrightarrow> (\<forall>t\<in>set targets. one_dot t)"
  proof
    assume "\<exists>r. list_deployed_clusters targets actual = Inr r"
    then show "\<forall>t\<in>set targets. one_dot t"
      using list_deployed_clusters_fails [of targets actual] by fastforce
  next
    assume "\<forall>t\<in>set targets. one_dot t"
    then show "\<exists>r. list_deployed_clusters targets actual = Inr r"
      by (simp add: list_deployed_clusters_ok)
  qed
next
  assume "snd (report_status_for_cluster env service cluster targets actual verbose) = None"
  then show "\<forall>t\<in>set targets. one_dot t"
    using report_status_for_cluster_fails [of targets env service cluster actual verbose] by auto
next
  assume bad: "\<exists>t\<in>set targets. \<not> one_dot t"
  then show "list_deployed_clusters targets actual = Inl ValueError"
    by (rule list_deployed_clusters_fails)
  from bad show "snd (report_status_for_cluster env service cluster targets actual verbose) \<noteq> None"
    by (rule report_status_for_cluster_fails)
  from bad show "report_status env service targets actual cluster_filter verbose
             = ([''Pipeline: '' @ get_pipeline_url env service], Some ValueError)"
    by (rule report_status_fails)
qed


theorem malformed_target_fails_report_witness:
  "\<not> one_dot ''novaprod''
   \<and> list_deployed_clusters [''norcal-prod.main'', ''novaprod''] [(''norcal-prod.main'', ''a1b2c3d4'')]
       = Inl ValueError
   \<and> snd (report_status_for_cluster stub_collaborators ''myservice'' ''norcal-prod''
             [''norcal-prod.main'', ''novaprod''] [(''norcal-prod.main'', ''a1b2c3d4'')] False) \<noteq> None
   \<and> report_status stub_collaborators ''myservice'' [''norcal-prod.main'', ''novaprod'']
        [(''norcal-prod.main'', ''a1b2c3d4'')] (Some [''norcal-prod'']) False
       = ([''Pipeline: https://jenkins.yelpcorp.com/view/services-myservice''], Some ValueError)"
  using malformed_target_fails_report
    [of "[''norcal-prod.main'', ''novaprod'']" "[(''norcal-prod.main'', ''a1b2c3d4'')]"
        stub_collaborators "''myservice''" "''norcal-prod''" False "Some [''norcal-prod'']"]
  by (simp add: one_dot_def stub_collaborators_def)

subsection \<open>The planner\<close>

lemma first_occurrences_snoc:
  "first_occurrences (xs @ [x]) =
   (if x \<in> set xs then first_occurrences xs else first_occurrences xs @ [x])"
  by (induction xs) (auto simp: set_first_occurrences)

lemma setdefault_append_map:
  "distinct cs \<Longrightarrow>
   setdefault_append (map (\<lambda>c. (c, f c)) cs) k i =
   (if k \<in> set cs then map (\<lambda>c. (c, if c = k then f c @ [i] else f c)) cs
    else map (\<lambda>c. (c, f c)) cs @ [(k, [i])])"
  by (induction cs) auto

lemma filter_fresh_image: "k \<notin> f ` set xs \<Longrightarrow> filter (\<lambda>u. f u = k) xs = []"
  by (induction xs) auto

lemma cluster_dict_of_snoc:
  "cluster_dict_of (ns @ [t]) = setdefault_append (cluster_dict_of ns) (cluster_of t) (instance_of t)"
proof (cases "cluster_of t \<in> set (map cluster_of ns)")
  case True
  then show ?thesis
    by (simp add: cluster_dict_of_def first_occurrences_snoc setdefault_append_map
          distinct_first_occurrences set_first_occurrences)
next
  case False
  then have "filter (\<lambda>u. cluster_of u = cluster_of t) ns = []"
    by (simp add: filter_fresh_image)
  with False show ?thesis
    by (auto simp: cluster_dict_of_def first_occurrences_snoc setdefault_append_map
          distinct_first_occurrences set_first_occurrences)
qed

lemma planned_loop_ok:
  "\<forall>n\<in>set (filter (\<lambda>n. n \<notin> set nd) (map instancename steps)). one_dot n \<Longrightarrow>
   planned_loop nd steps (cluster_dict_of pre) =
   Inr (cluster_dict_of (pre @ filter (\<lambda>n. n \<notin> set nd) (map instancename steps)))"
proof (induction steps arbitrary: pre)
  case Nil
  then show ?case by simp
next
  case (Cons s steps)
  show ?case
  proof (cases "instancename s \<in> set nd")
    case True
    with Cons show ?thesis by simp
  next
    case False
    with Cons.prems have "one_dot (instancename s)" by simp
    then have u: "unpack2 (str_split CHR ''.'' (instancename s))
                  = Inr (cluster_of (instancename s), instance_of (instancename s))"
      by (rule unpack2_split_dot)
    from Cons.prems have
      "planned_loop nd steps (cluster_dict_of (pre @ [instancename s])) =
       Inr (cluster_dict_of ((pre @ [instancename s]) @ filter (\<lambda>n. n \<notin> set nd) (map instancename steps)))"
      by (intro Cons.IH) simp
    with False u show ?thesis
      by (simp add: cluster_dict_of_snoc)
  qed
qed

lemma planned_loop_fails:
  "\<exists>n\<in>set (filter (\<lambda>n. n \<notin> set nd) (map instancename steps)). \<not> one_dot n \<Longrightarrow>
   planned_loop nd steps cd = Inl ValueError"
proof (induction steps arbitrary: cd)
  case Nil
  then show ?case by simp
next
  case (Cons s steps)
  show ?case
  proof (cases "instancename s \<in> set nd")
    case True
    with Cons show ?thesis by simp
  next
    case False
    show ?thesis
    proof (cases "one_dot (instancename s)")
      case True
      with Cons False show ?thesis by (simp add: unpack2_split_dot)
    next
      case no_dot: False
      with False show ?thesis by (simp add: unpack2_split_dot_fails)
    qed
  qed
qed

lemma cluster_dot_instance:
  "CHR ''.'' \<in> set t \<Longrightarrow> cluster_of t @ ''.'' @ instance_of t = t"
proof -
  assume "CHR ''.'' \<in> set t"
  then have "dropWhile (\<lambda>x. x \<noteq> CHR ''.'') t \<noteq> []" by simp
  moreover from this have "hd (dropWhile (\<lambda>x. x \<noteq> CHR ''.'') t) = CHR ''.''"
    using hd_dropWhile [of "\<lambda>x. x \<noteq> CHR ''.''" t] by simp
  ultimately have "CHR ''.'' # tl (dropWhile (\<lambda>x. x \<noteq> CHR ''.'') t) = dropWhile (\<lambda>x. x \<noteq> CHR ''.'') t"
    by (cases "dropWhile (\<lambda>x. x \<noteq> CHR ''.'') t") auto
  then show ?thesis
    by (simp add: cluster_of_def instance_of_def)
qed

lemma one_dot_has_dot: "one_dot t \<Longrightarrow> CHR ''.'' \<in> set t"
  using count_list_0_iff' [of t "CHR ''.''"] by (simp add: one_dot_def)

lemma planned_yield_map:
  "planned_yield (map (\<lambda>c. (c, g c)) cs) =
   concat (map (\<lambda>c. map (\<lambda>instance. c @ ''.'' @ instance) (g c)) cs)"
  by (induction cs) auto

lemma planned_yield_cluster_dict_of:
  assumes "\<forall>n\<in>set ns. one_dot n"
  shows "planned_yield (cluster_dict_of ns) = grouped ns"
proof -
  have "map (\<lambda>instance. c @ ''.'' @ instance) (map instance_of (filter (\<lambda>t. cluster_of t = c) ns))
        = filter (\<lambda>t. cluster_of t = c) ns" for c
  proof -
    have "map (\<lambda>t. c @ ''.'' @ instance_of t) (filter (\<lambda>t. cluster_of t = c) ns)
          = map (\<lambda>t. t) (filter (\<lambda>t. cluster_of t = c) ns)"
      using assms by (intro map_cong) (auto dest!: one_dot_has_dot cluster_dot_instance)
    then show ?thesis by (simp add: comp_def)
  qed
  then show ?thesis
    by (simp add: cluster_dict_of_def grouped_def planned_yield_map)
qed

lemma get_planned_deployments_ok:
  assumes "\<forall>n\<in>set (deploy_steps env di). one_dot n"
  shows "get_planned_deployments env di = Inr (grouped (deploy_steps env di))"
proof -
  have "cluster_dict_of [] = []" by (simp add: cluster_dict_of_def)
  with assms planned_loop_ok [of "DEPLOY_PIPELINE_NON_DEPLOY_STEPS env" "pipeline di" "[]"]
  have "planned_loop (DEPLOY_PIPELINE_NON_DEPLOY_STEPS env) (pipeline di) []
        = Inr (cluster_dict_of (deploy_steps env di))"
    by (simp add: deploy_steps_def)
  with assms show ?thesis
    by (simp add: get_planned_deployments_def planned_yield_cluster_dict_of)
qed

lemma get_planned_deployments_fails:
  assumes "\<exists>n\<in>set (deploy_steps env di). \<not> one_dot n"
  shows "get_planned_deployments env di = Inl ValueError"
  using assms planned_loop_fails [of "DEPLOY_PIPELINE_NON_DEPLOY_STEPS env" "pipeline di" "[]"]
  by (simp add: get_planned_deployments_def deploy_steps_def)

lemma filter_two_keys: "a \<noteq> c \<Longrightarrow> filter (\<lambda>t. f t = a \<and> f t = c) ns = []"
  by (induction ns) auto

lemma filter_same_key: "filter (\<lambda>t. f t = c \<and> f t = c) ns = filter (\<lambda>t. f t = c) ns"
  by (induction ns) auto

lemma filter_concat_blocks:
  "distinct cs \<Longrightarrow>
   filter (\<lambda>t. f t = c) (concat (map (\<lambda>c'. filter (\<lambda>t. f t = c') ns) cs)) =
   (if c \<in> set cs then filter (\<lambda>t. f t = c) ns else [])"
proof (induction cs)
  case Nil
  then show ?case by simp
next
  case (Cons a cs)
  then have IH: "filter (\<lambda>t. f t = c) (concat (map (\<lambda>c'. filter (\<lambda>t. f t = c') ns) cs)) =
   (if c \<in> set cs then filter (\<lambda>t. f t = c) ns else [])"
    and a: "a \<notin> set cs"
    by simp_all
  show ?case
  proof (cases "a = c")
    case True
    with a have "c \<notin> set cs" by simp
    with True IH show ?thesis by (simp add: filter_same_key)
  next
    case False
    with IH show ?thesis by (simp add: filter_two_keys)
  qed
qed

lemma grouped_cluster_sublist:
  "filter (\<lambda>t. cluster_of t = c) (grouped ns) = filter (\<lambda>t. cluster_of t = c) ns"
proof (cases "c \<in> set (map cluster_of ns)")
  case True
  then show ?thesis
    by (simp add: grouped_def filter_concat_blocks distinct_first_occurrences
          set_first_occurrences)
next
  case False
  then have "filter (\<lambda>t. cluster_of t = c) ns = []"
    by (simp add: filter_fresh_image)
  with False show ?thesis
    by (simp add: grouped_def filter_concat_blocks distinct_first_occurrences
          set_first_occurrences)
qed

lemma first_occurrences_block:
  "filter (\<lambda>y. y \<noteq> c) (first_occurrences (replicate m c @ ys))
   = filter (\<lambda>y. y \<noteq> c) (first_occurrences ys)"
  by (induction m) auto

lemma map_filter_const: "map f (filter (\<lambda>t. f t = c) ns) = replicate (length (filter (\<lambda>t. f t = c) ns)) c"
  by (induction ns) auto

lemma first_occurrences_blocks:
  "distinct cs \<Longrightarrow> \<forall>c\<in>set cs. 0 < n c \<Longrightarrow>
   first_occurrences (concat (map (\<lambda>c. replicate (n c) c) cs)) = cs"
proof (induction cs)
  case Nil
  then show ?case by simp
next
  case (Cons a cs)
  then obtain m where m: "n a = Suc m" by (cases "n a") auto
  from Cons have IH: "first_occurrences (concat (map (\<lambda>c. replicate (n c) c) cs)) = cs"
    by simp
  from Cons.prems have "a \<notin> set cs" by simp
  then have "filter (\<lambda>y. y \<noteq> a) cs = cs"
    by (induction cs) auto
  then show ?case
    by (simp add: m first_occurrences_block IH)
qed

lemma grouped_cluster_order:
  "first_occurrences (map cluster_of (grouped ns)) = first_occurrences (map cluster_of ns)"
proof -
  let ?cs = "first_occurrences (map cluster_of ns)"
  let ?n = "\<lambda>c. length (filter (\<lambda>t. cluster_of t = c) ns)"
  have "map cluster_of (grouped ns) = concat (map (\<lambda>c. replicate (?n c) c) ?cs)"
    by (simp add: grouped_def map_concat comp_def map_filter_const)
  moreover have "\<forall>c\<in>set ?cs. 0 < ?n c"
    by (auto simp: set_first_occurrences filter_empty_conv)
  ultimately show ?thesis
    by (simp add: first_occurrences_blocks distinct_first_occurrences)
qed

text \<open>
  Claim C2. \<^verbatim>\<open>get_planned_deployments\<close> skips the steps in the non-deploy set and
  yields the remaining namespaces grouped by cluster: the clusters in order of first
  appearance, the namespaces of a cluster in their order of appearance, duplicates
  kept. Steps \<open>itest\<close>, \<open>norcal-prod.main\<close>, \<open>nova-prod.main\<close> with non-deploy set
  \<open>{itest}\<close> yield \<open>norcal-prod.main\<close>, \<open>nova-prod.main\<close>.
\<close>

theorem get_planned_deployments_grouped:
  "((\<forall>n\<in>set (deploy_steps env di). one_dot n) \<longrightarrow>
      (\<exists>r. get_planned_deployments env di = Inr r
         \<and> r = grouped (deploy_steps env di)
         \<and> first_occurrences (map cluster_of r) = first_occurrences (map cluster_of (deploy_steps env di))
         \<and> (\<forall>c. filter (\<lambda>t. cluster_of t = c) r = filter (\<lambda>t. cluster_of t = c) (deploy_steps env di))))
   \<and> get_planned_deployments (stub_collaborators\<lparr>DEPLOY_PIPELINE_NON_DEPLOY_STEPS := [''itest'']\<rparr>)
        \<lparr>pipeline = [\<lparr>instancename = ''itest''\<rparr>, \<lparr>instancename = ''norcal-prod.main''\<rparr>,
                     \<lparr>instancename = ''nova-prod.main''\<rparr>]\<rparr>
      = Inr [''norcal-prod.main'', ''nova-prod.main'']"
proof (intro conjI impI)
  assume "\<forall>n\<in>set (deploy_steps env di). one_dot n"
  then have "get_planned_deployments env di = Inr (grouped (deploy_steps env di))"
    by (rule get_planned_deployments_ok)
  then show "\<exists>r. get_planned_deployments env di = Inr r
         \<and> r = grouped (deploy_steps env di)
         \<and> first_occurrences (map cluster_of r) = first_occurrences (map cluster_of (deploy_steps env di))
         \<and> (\<forall>c. filter (\<lambda>t. cluster_of t = c) r = filter (\<lambda>t. cluster_of t = c) (deploy_steps env di))"
    by (simp add: grouped_cluster_order grouped_cluster_sublist)
next
  show "get_planned_deployments (stub_collaborators\<lparr>DEPLOY_PIPELINE_NON_DEPLOY_STEPS := [''itest'']\<rparr>)
        \<lparr>pipeline = [\<lparr>instancename = ''itest''\<rparr>, \<lparr>instancename = ''norcal-prod.main''\<rparr>,
                     \<lparr>instancename = ''nova-prod.main''\<rparr>]\<rparr>
      = Inr [''norcal-prod.main'', ''nova-prod.main'']"
    by (simp add: get_planned_deployments_def stub_collaborators_def)
qed

theorem get_planned_deployments_grouped_witness:
  "one_dot ''norcal-prod.main'' \<and> one_dot ''nova-prod.main'' \<and> one_dot ''norcal-prod.canary''
   \<and> get_planned_deployments stub_collaborators
        \<lparr>pipeline = [\<lparr>instancename = ''norcal-prod.main''\<rparr>, \<lparr>instancename = ''itest''\<rparr>,
                     \<lparr>instancename = ''nova-prod.main''\<rparr>, \<lparr>instancename = ''norcal-prod.canary''\<rparr>,
                     \<lparr>instancename = ''norcal-prod.main''\<rparr>]\<rparr>
      = Inr [''norcal-prod.main'', ''norcal-prod.canary'', ''norcal-prod.main'', ''nova-prod.main'']"
proof -
  let ?di = "\<lparr>pipeline = [\<lparr>instancename = ''norcal-prod.main''\<rparr>, \<lparr>instancename = ''itest''\<rparr>,
                     \<lparr>instancename = ''nova-prod.main''\<rparr>, \<lparr>instancename = ''norcal-prod.canary''\<rparr>,
                     \<lparr>instancename = ''norcal-prod.main''\<rparr>]\<rparr>"
  have steps: "deploy_steps stub_collaborators ?di
        = [''norcal-prod.main'', ''nova-prod.main'', ''norcal-prod.canary'', ''norcal-prod.main'']"
    by (simp add: deploy_steps_def stub_collaborators_def)
  have dots: "one_dot ''norcal-prod.main'' \<and> one_dot ''nova-prod.main'' \<and> one_dot ''norcal-prod.canary''"
    by (simp add: one_dot_def)
  then have hyp: "\<forall>n\<in>set (deploy_steps stub_collaborators ?di). one_dot n"
    by (simp add: steps)
  have "get_planned_deployments stub_collaborators ?di
        = Inr (grouped (deploy_steps stub_collaborators ?di))"
    using get_planned_deployments_grouped [of stub_collaborators ?di, THEN conjunct1, THEN mp, OF hyp]
    by blast
  also have "grouped (deploy_steps stub_collaborators ?di)
        = [''norcal-prod.main'', ''norcal-prod.canary'', ''norcal-prod.main'', ''nova-prod.main'']"
    by (simp add: steps grouped_def cluster_of_def)
  finally show ?thesis using dots by simp
qed

text \<open>
  Claim C8. The planner raises on a deploy step whose namespace has no \<open>.\<close> or more
  than one, and only then: it returns exactly when every deploy step has one \<open>.\<close>.
\<close>

theorem get_planned_deployments_malformed:
  "((\<exists>n\<in>set (deploy_steps env di). \<not> one_dot n) \<longrightarrow> get_planned_deployments env di = Inl ValueError)
   \<and> ((\<forall>n\<in>set (deploy_steps env di). one_dot n) \<longrightarrow> (\<exists>r. get_planned_deployments env di = Inr r))"
  by (simp add: get_planned_deployments_fails get_planned_deployments_ok)

theorem get_planned_deployments_malformed_witness:
  "\<not> one_dot ''norcalprod'' \<and> \<not> one_dot ''nova-prod.main.canary''
   \<and> get_planned_deployments stub_collaborators
        \<lparr>pipeline = [\<lparr>instancename = ''itest''\<rparr>, \<lparr>instancename = ''norcalprod''\<rparr>]\<rparr> = Inl ValueError
   \<and> get_planned_deployments stub_collaborators
        \<lparr>pipeline = [\<lparr>instancename = ''itest''\<rparr>, \<lparr>instancename = ''nova-prod.main.canary''\<rparr>]\<rparr> = Inl ValueError
   \<and> one_dot ''nova-prod.main''
   \<and> (\<exists>r. get_planned_deployments stub_collaborators
        \<lparr>pipeline = [\<lparr>instancename = ''itest''\<rparr>, \<lparr>instancename = ''nova-prod.main''\<rparr>]\<rparr> = Inr r)"
  using get_planned_deployments_malformed
    [of stub_collaborators "\<lparr>pipeline = [\<lparr>instancename = ''itest''\<rparr>, \<lparr>instancename = ''norcalprod''\<rparr>]\<rparr>"]
    get_planned_deployments_malformed
    [of stub_collaborators "\<lparr>pipeline = [\<lparr>instancename = ''itest''\<rparr>, \<lparr>instancename = ''nova-prod.main.canary''\<rparr>]\<rparr>"]
    get_planned_deployments_malformed
    [of stub_collaborators "\<lparr>pipeline = [\<lparr>instancename = ''itest''\<rparr>, \<lparr>instancename = ''nova-prod.main''\<rparr>]\<rparr>"]
  by (simp add: one_dot_def deploy_steps_def stub_collaborators_def)

subsection \<open>The filter validator\<close>

lemma report_bogus_filters_loop_filter:
  "report_bogus_filters_loop cf deployed acc = acc @ filter (\<lambda>c. c \<notin> set deployed) cf"
  by (induction cf arbitrary: acc) auto

lemma bogus_warning_not_Nil: "bogus_warning \<noteq> []"
  by (simp add: bogus_warning_def newline_def)

text \<open>
  Claim C9. \<^verbatim>\<open>report_bogus_filters\<close> collects the filter entries that are not in the
  list of deployed clusters, in the order of the filter, and returns them joined with
  commas after its warning; it returns the empty string exactly when the filter is
  absent or every entry of it is a deployed cluster.
\<close>

theorem report_bogus_filters_exact:
  "report_bogus_filters_loop cf deployed [] = filter (\<lambda>c. c \<notin> set deployed) cf
   \<and> report_bogus_filters None deployed = []
   \<and> report_bogus_filters (Some cf) deployed =
       (if filter (\<lambda>c. c \<notin> set deployed) cf = [] then []
        else bogus_warning @ join '','' (filter (\<lambda>c. c \<notin> set deployed) cf))
   \<and> (report_bogus_filters (Some cf) deployed = [] \<longleftrightarrow> set cf \<subseteq> set deployed)"
proof -
  have loop: "report_bogus_filters_loop cf deployed [] = filter (\<lambda>c. c \<notin> set deployed) cf"
    by (simp add: report_bogus_filters_loop_filter)
  have some: "report_bogus_filters (Some cf) deployed =
       (if filter (\<lambda>c. c \<notin> set deployed) cf = [] then []
        else bogus_warning @ join '','' (filter (\<lambda>c. c \<notin> set deployed) cf))"
    by (simp add: report_bogus_filters_def loop Let_def)
  have "filter (\<lambda>c. c \<notin> set deployed) cf = [] \<longleftrightarrow> set cf \<subseteq> set deployed"
    by (auto simp: filter_empty_conv)
  then have "report_bogus_filters (Some cf) deployed = [] \<longleftrightarrow> set cf \<subseteq> set deployed"
    by (simp add: some bogus_warning_not_Nil)
  with loop some show ?thesis
    by (simp add: report_bogus_filters_def)
qed

theorem report_bogus_filters_exact_witness:
  "report_bogus_filters_loop [''norcal-prod'', ''bogus-cluster''] [''norcal-prod''] [] = [''bogus-cluster'']
   \<and> report_bogus_filters (Some [''norcal-prod'', ''bogus-cluster'']) [''norcal-prod'']
       = bogus_warning @ ''bogus-cluster''"
  using report_bogus_filters_exact [of "[''norcal-prod'', ''bogus-cluster'']" "[''norcal-prod'']"]
  by simp

subsection \<open>No deployments yet\<close>

lemma get_actual_deployments_empty:
  "load_deployments_json env service_name = [] \<Longrightarrow>
   get_actual_deployments env service_name =
   ([''Warning: it looks like '' @ service_name @ '' has not been deployed anywhere yet!''], Inr [])"
  by (simp add: get_actual_deployments_def)

text \<open>
  Claim C7. When \<^verbatim>\<open>deploy.yaml\<close> is there and the actual deployments are empty,
  \<^verbatim>\<open>paasta_status\<close> prints the missing-deployments message and nothing else, whatever
  the pipeline and the cluster filter are, and returns. Reading an empty
  \<^verbatim>\<open>deployments.json\<close> returns the empty dictionary after one warning on
  \<^verbatim>\<open>sys.stderr\<close>.
\<close>

theorem paasta_status_no_deployments:
  "(read_deploy env (figure_out_service_name env args) = Some di
      \<and> snd (get_actual_deployments env (figure_out_service_name env args)) = Inr []
    \<longrightarrow> paasta_status env args =
          \<lparr>stdout = [missing_deployments_message env (figure_out_service_name env args)],
           stderr = fst (get_actual_deployments env (figure_out_service_name env args)),
           raised = None\<rparr>)
   \<and> (load_deployments_json env service_name = []
    \<longrightarrow> get_actual_deployments env service_name =
          ([''Warning: it looks like '' @ service_name @ '' has not been deployed anywhere yet!''],
           Inr []))"
proof (intro conjI impI)
  assume a: "read_deploy env (figure_out_service_name env args) = Some di
      \<and> snd (get_actual_deployments env (figure_out_service_name env args)) = Inr []"
  obtain err r where g: "get_actual_deployments env (figure_out_service_name env args) = (err, r)"
    by (cases "get_actual_deployments env (figure_out_service_name env args)")
  with a have "r = Inr []" by simp
  with a g show "paasta_status env args =
          \<lparr>stdout = [missing_deployments_message env (figure_out_service_name env args)],
           stderr = fst (get_actual_deployments env (figure_out_service_name env args)),
           raised = None\<rparr>"
    by (simp add: paasta_status_def get_deploy_info_def Let_def)
next
  assume "load_deployments_json env service_name = []"
  then show "get_actual_deployments env service_name =
          ([''Warning: it looks like '' @ service_name @ '' has not been deployed anywhere yet!''],
           Inr [])"
    by (rule get_actual_deployments_empty)
qed

theorem paasta_status_no_deployments_witness:
  "paasta_status
     (stub_collaborators\<lparr>read_deploy := \<lambda>s. Some \<lparr>pipeline = [\<lparr>instancename = ''norcal-prod.main''\<rparr>]\<rparr>\<rparr>)
     \<lparr>args_service = Some ''myservice'', args_clusters = Some ''norcal-prod,nova-prod'', args_verbose = False\<rparr>
   = \<lparr>stdout = [''x No deployments in deployments.json yet.'' @ newline @ ''  Has Jenkins run?''
                 @ newline @ ''  Check: https://jenkins.yelpcorp.com/view/services-myservice''],
      stderr = [''Warning: it looks like myservice has not been deployed anywhere yet!''],
      raised = None\<rparr>"
  using paasta_status_no_deployments
    [of "stub_collaborators\<lparr>read_deploy := \<lambda>s. Some \<lparr>pipeline = [\<lparr>instancename = ''norcal-prod.main''\<rparr>]\<rparr>\<rparr>"
        "\<lparr>args_service = Some ''myservice'', args_clusters = Some ''norcal-prod,nova-prod'', args_verbose = False\<rparr>"
        "\<lparr>pipeline = [\<lparr>instancename = ''norcal-prod.main''\<rparr>]\<rparr>" "''myservice''"]
  by (simp add: stub_collaborators_def get_actual_deployments_def missing_deployments_message_def)

subsection \<open>The deployment reader\<close>

lemma rfind_nonneg_iff: "0 \<le> rfind c s \<longleftrightarrow> c \<in> set s"
  by (induction s) (auto simp: Let_def)

lemma rfind_absent: "c \<notin> set s \<Longrightarrow> rfind c s = - 1"
  by (induction s) (auto simp: Let_def)

lemma takeWhile_absent:
  "c \<notin> set zs \<Longrightarrow> takeWhile (\<lambda>x. x \<noteq> c) (zs @ ys) = zs @ takeWhile (\<lambda>x. x \<noteq> c) ys"
  by (induction zs) auto

lemma takeWhile_present:
  "c \<in> set zs \<Longrightarrow> takeWhile (\<lambda>x. x \<noteq> c) (zs @ ys) = takeWhile (\<lambda>x. x \<noteq> c) zs"
  by (induction zs) auto

lemma slice_after_rfind:
  "slice_from s (rfind c s + 1) = rev (takeWhile (\<lambda>x. x \<noteq> c) (rev s))"
proof (induction s)
  case Nil
  then show ?case by (simp add: slice_from_def)
next
  case (Cons x xs)
  show ?case
  proof (cases "c \<in> set xs")
    case True
    then have r: "0 \<le> rfind c xs" by (simp add: rfind_nonneg_iff)
    then have "slice_from (x # xs) (rfind c (x # xs) + 1) = slice_from xs (rfind c xs + 1)"
      by (simp add: slice_from_def Let_def nat_add_distrib)
    moreover from True have "takeWhile (\<lambda>x. x \<noteq> c) (rev xs @ [x]) = takeWhile (\<lambda>x. x \<noteq> c) (rev xs)"
      by (simp add: takeWhile_present)
    ultimately show ?thesis using Cons by simp
  next
    case False
    then have r: "rfind c xs = - 1" by (rule rfind_absent)
    from False have t: "takeWhile (\<lambda>x. x \<noteq> c) (rev xs @ ys) = rev xs @ takeWhile (\<lambda>x. x \<noteq> c) ys" for ys
      by (simp add: takeWhile_absent)
    show ?thesis
      by (cases "x = c") (simp_all add: r t slice_from_def Let_def)
  qed
qed

lemma sha_is_version_of: "slice_from docker_image (rfind CHR ''-'' docker_image + 1) = version_of docker_image"
proof (cases "CHR ''-'' \<in> set docker_image")
  case True
  then show ?thesis by (simp add: version_of_def slice_after_rfind)
next
  case False
  then have "takeWhile (\<lambda>x. x \<noteq> CHR ''-'') (rev docker_image) = rev docker_image"
    by auto
  then have "rev (takeWhile (\<lambda>x. x \<noteq> CHR ''-'') (rev docker_image)) = docker_image"
    by (simp only: rev_rev_ident)
  with False show ?thesis by (simp only: version_of_def slice_after_rfind if_False)
qed

lemma unpack2_split_colon:
  "one_colon k \<Longrightarrow> unpack2 (str_split CHR '':'' k) = Inr (service_of k, namespace_of k)"
  by (simp add: one_colon_def str_split_one_sep service_of_def namespace_of_def)

lemma unpack2_split_colon_fails:
  "\<not> one_colon k \<Longrightarrow> unpack2 (str_split CHR '':'' k) = Inl ValueError"
  by (rule unpack2_fails) (simp add: length_str_split one_colon_def)

lemma get_actual_deployments_loop_ok:
  "\<forall>e\<in>set deployments_json. one_colon (fst e) \<Longrightarrow>
   \<exists>m. get_actual_deployments_loop deployments_json service_name acc = Inr m
      \<and> map_of m = map_of acc ++ map_of (rev (map stored (retained deployments_json service_name)))"
proof (induction deployments_json arbitrary: acc)
  case Nil
  then show ?case by (simp add: retained_def)
next
  case (Cons e rest)
  obtain key docker_image where e: "e = (key, docker_image)" by (cases e)
  with Cons.prems have u: "unpack2 (str_split CHR '':'' key) = Inr (service_of key, namespace_of key)"
    by (simp add: unpack2_split_colon)
  from Cons have IH: "\<And>acc. \<exists>m. get_actual_deployments_loop rest service_name acc = Inr m
      \<and> map_of m = map_of acc ++ map_of (rev (map stored (retained rest service_name)))"
    by simp
  show ?case
  proof (cases "service_of key = service_name")
    case False
    with IH [of acc] show ?thesis
      by (simp add: e u retained_def)
  next
    case True
    let ?acc = "AList.update (replace_first ''paasta-'' [] (namespace_of key)) (version_of docker_image) acc"
    from IH [of ?acc] obtain m where
      m: "get_actual_deployments_loop rest service_name ?acc = Inr m"
      and mm: "map_of m = map_of ?acc ++ map_of (rev (map stored (retained rest service_name)))"
      by blast
    have "map_of ?acc = map_of acc ++ map_of [stored (key, docker_image)]"
      by (simp add: update_conv' stored_def)
    with mm have "map_of m = map_of acc ++ map_of (rev (map stored (retained (e # rest) service_name)))"
      using True by (simp add: retained_def e)
    with m True show ?thesis
      by (simp add: e u sha_is_version_of Let_def)
  qed
qed

lemma get_actual_deployments_loop_fails:
  "\<exists>e\<in>set deployments_json. \<not> one_colon (fst e) \<Longrightarrow>
   get_actual_deployments_loop deployments_json service_name acc = Inl ValueError"
proof (induction deployments_json arbitrary: acc)
  case Nil
  then show ?case by simp
next
  case (Cons e rest)
  obtain key docker_image where e: "e = (key, docker_image)" by (cases e)
  show ?case
  proof (cases "one_colon key")
    case True
    with Cons e show ?thesis by (simp add: unpack2_split_colon Let_def)
  next
    case False
    then show ?thesis by (simp add: e unpack2_split_colon_fails)
  qed
qed

lemma get_actual_deployments_ok:
  assumes "\<forall>e\<in>set (load_deployments_json env service_name). one_colon (fst e)"
  shows "\<exists>m. snd (get_actual_deployments env service_name) = Inr m
           \<and> map_of m = map_of (rev (map stored (retained (load_deployments_json env service_name) service_name)))"
  using get_actual_deployments_loop_ok [OF assms, of service_name "[]"]
  by (simp add: get_actual_deployments_def Let_def)

lemma stored_key_present:
  "e \<in> set es \<Longrightarrow> \<exists>v. map_of (rev (map stored es)) (fst (stored e)) = Some v"
proof -
  assume "e \<in> set es"
  then have "fst (stored e) \<in> fst ` set (rev (map stored es))" by force
  then have "map_of (rev (map stored es)) (fst (stored e)) \<noteq> None"
    by (simp only: map_of_eq_None_iff not_not)
  then show ?thesis by blast
qed

lemma stored_value_origin:
  "map_of (rev (map stored es)) k = Some v \<Longrightarrow> \<exists>e\<in>set es. stored e = (k, v)"
  by (drule map_of_SomeD) auto

lemma stored_value_unique:
  assumes "distinct (map (\<lambda>e. fst (stored e)) es)" and "e \<in> set es"
  shows "map_of (rev (map stored es)) (fst (stored e)) = Some (snd (stored e))"
proof -
  from assms(1) have "distinct (map fst (rev (map stored es)))"
    by (simp add: rev_map [symmetric] comp_def)
  moreover from assms(2) have "(fst (stored e), snd (stored e)) \<in> set (rev (map stored es))"
    by force
  ultimately show ?thesis by (rule map_of_is_SomeI)
qed

text \<open>
  Claim C4. On a raw record whose keys each have one \<open>:\<close>, \<^verbatim>\<open>get_actual_deployments\<close>
  returns a dictionary in which every value comes from an entry of the queried service
  and is the part of that entry's \<^verbatim>\<open>docker_image\<close> after its last \<open>-\<close>, or all of it
  when it has no \<open>-\<close>; entries of other services leave no trace. Every entry of the
  service has its key in the result, with its own version when no other entry of the
  service is stored under the same key.
\<close>

theorem get_actual_deployments_service_and_version:
  assumes "\<forall>e\<in>set (load_deployments_json env service_name). one_colon (fst e)"
  shows "\<exists>m. snd (get_actual_deployments env service_name) = Inr m
           \<and> (\<forall>k v. map_of m k = Some v \<longrightarrow>
                 (\<exists>e\<in>set (load_deployments_json env service_name).
                     service_of (fst e) = service_name
                   \<and> k = replace_first ''paasta-'' [] (namespace_of (fst e))
                   \<and> v = version_of (snd e)))
           \<and> (\<forall>e\<in>set (load_deployments_json env service_name).
                 service_of (fst e) = service_name \<longrightarrow>
                 has_key m (replace_first ''paasta-'' [] (namespace_of (fst e))))
           \<and> (distinct (map (\<lambda>e. fst (stored e)) (retained (load_deployments_json env service_name) service_name)) \<longrightarrow>
               (\<forall>e\<in>set (load_deployments_json env service_name).
                 service_of (fst e) = service_name \<longrightarrow>
                 map_of m (replace_first ''paasta-'' [] (namespace_of (fst e))) = Some (version_of (snd e))))"
proof -
  let ?es = "retained (load_deployments_json env service_name) service_name"
  from get_actual_deployments_ok [OF assms] obtain m where
    m: "snd (get_actual_deployments env service_name) = Inr m"
    and mm: "map_of m = map_of (rev (map stored ?es))"
    by blast
  have mem: "e \<in> set ?es \<longleftrightarrow>
      e \<in> set (load_deployments_json env service_name) \<and> service_of (fst e) = service_name" for e
    by (auto simp: retained_def)
  have a: "\<forall>k v. map_of m k = Some v \<longrightarrow>
                 (\<exists>e\<in>set (load_deployments_json env service_name).
                     service_of (fst e) = service_name
                   \<and> k = replace_first ''paasta-'' [] (namespace_of (fst e))
                   \<and> v = version_of (snd e))"
  proof (intro allI impI)
    fix k v
    assume "map_of m k = Some v"
    then obtain e where "e \<in> set ?es" and "stored e = (k, v)"
      using stored_value_origin [of ?es k v] by (auto simp: mm)
    then show "\<exists>e\<in>set (load_deployments_json env service_name).
                     service_of (fst e) = service_name
                   \<and> k = replace_first ''paasta-'' [] (namespace_of (fst e))
                   \<and> v = version_of (snd e)"
      by (auto simp: mem stored_def)
  qed
  have b: "\<forall>e\<in>set (load_deployments_json env service_name).
                 service_of (fst e) = service_name \<longrightarrow>
                 has_key m (replace_first ''paasta-'' [] (namespace_of (fst e)))"
  proof (intro ballI impI)
    fix e
    assume "e \<in> set (load_deployments_json env service_name)" and "service_of (fst e) = service_name"
    then have "e \<in> set ?es" by (simp add: mem)
    from stored_key_present [OF this] show "has_key m (replace_first ''paasta-'' [] (namespace_of (fst e)))"
      by (auto simp: has_key_def mm stored_def)
  qed
  have c: "distinct (map (\<lambda>e. fst (stored e)) ?es) \<longrightarrow>
               (\<forall>e\<in>set (load_deployments_json env service_name).
                 service_of (fst e) = service_name \<longrightarrow>
                 map_of m (replace_first ''paasta-'' [] (namespace_of (fst e))) = Some (version_of (snd e)))"
  proof (intro ballI impI)
    fix e
    assume d: "distinct (map (\<lambda>e. fst (stored e)) ?es)"
    assume "e \<in> set (load_deployments_json env service_name)" and "service_of (fst e) = service_name"
    then have "e \<in> set ?es" by (simp add: mem)
    from stored_value_unique [OF d this]
    show "map_of m (replace_first ''paasta-'' [] (namespace_of (fst e))) = Some (version_of (snd e))"
      by (simp add: mm stored_def)
  qed
  from m a b c show ?thesis by blast
qed

theorem get_actual_deployments_service_and_version_witness:
  "one_colon ''myservice:paasta-main'' \<and> one_colon ''other:paasta-main''
   \<and> one_colon ''myservice:paasta-canary''
   \<and> get_actual_deployments
        (stub_collaborators\<lparr>load_deployments_json := \<lambda>s.
           [(''myservice:paasta-main'', ''services-myservice-a1b2c3d4''),
            (''other:paasta-main'', ''services-other-ffff0000''),
            (''myservice:paasta-canary'', ''nodash'')]\<rparr>) ''myservice''
      = ([], Inr [(''main'', ''a1b2c3d4''), (''canary'', ''nodash'')])"
proof -
  let ?env = "stub_collaborators\<lparr>load_deployments_json := \<lambda>s.
           [(''myservice:paasta-main'', ''services-myservice-a1b2c3d4''),
            (''other:paasta-main'', ''services-other-ffff0000''),
            (''myservice:paasta-canary'', ''nodash'')]\<rparr>"
  have colons: "one_colon ''myservice:paasta-main'' \<and> one_colon ''other:paasta-main''
      \<and> one_colon ''myservice:paasta-canary''"
    by (simp add: one_colon_def)
  then have hyp: "\<forall>e\<in>set (load_deployments_json ?env ''myservice''). one_colon (fst e)"
    by simp
  from get_actual_deployments_service_and_version [OF hyp]
  obtain m where "snd (get_actual_deployments ?env ''myservice'') = Inr m" by blast
  moreover have "get_actual_deployments ?env ''myservice''
      = ([], Inr [(''main'', ''a1b2c3d4''), (''canary'', ''nodash'')])"
    by (simp add: get_actual_deployments_def slice_from_def Let_def)
  ultimately show ?thesis using colons by simp
qed

subsection \<open>The key under which a deployment is stored\<close>

lemma occurs_at_Suc: "occurs_at old (x # xs) (Suc i) = occurs_at old xs i"
  by (simp add: occurs_at_def)

lemma occurs_at_0: "occurs_at old s 0 \<longleftrightarrow> take (length old) s = old"
proof
  assume "take (length old) s = old"
  then have "length (take (length old) s) = length old"
    by simp
  then have "length old \<le> length s"
    by simp
  with \<open>take (length old) s = old\<close> show "occurs_at old s 0"
    by (simp add: occurs_at_def)
qed (simp add: occurs_at_def)

lemma replace_first_at:
  "occurs_at old s i \<Longrightarrow> \<forall>j<i. \<not> occurs_at old s j \<Longrightarrow>
   replace_first old new s = take i s @ new @ drop (i + length old) s"
proof (induction s arbitrary: i)
  case Nil
  then show ?case by (simp add: occurs_at_def)
next
  case (Cons x xs)
  show ?case
  proof (cases i)
    case 0
    with Cons.prems(1) show ?thesis by (simp add: occurs_at_0)
  next
    case (Suc i')
    with Cons.prems(2) have "\<not> occurs_at old (x # xs) 0" by blast
    then have no: "take (length old) (x # xs) \<noteq> old" by (simp add: occurs_at_0)
    from Suc Cons.prems(1) have o: "occurs_at old xs i'" by (simp add: occurs_at_Suc)
    have "\<forall>j<i'. \<not> occurs_at old xs j"
    proof (intro allI impI)
      fix j assume "j < i'"
      with Suc Cons.prems(2) have "\<not> occurs_at old (x # xs) (Suc j)" by simp
      then show "\<not> occurs_at old xs j" by (simp add: occurs_at_Suc)
    qed
    with o have "replace_first old new xs = take i' xs @ new @ drop (i' + length old) xs"
      by (rule Cons.IH)
    with no Suc show ?thesis by simp
  qed
qed

lemma replace_first_absent:
  "\<forall>i. \<not> occurs_at old s i \<Longrightarrow> replace_first old new s = s"
proof (induction s)
  case Nil
  then have "\<not> occurs_at old [] 0" by blast
  then show ?case by (simp add: occurs_at_def)
next
  case (Cons x xs)
  then have "\<not> occurs_at old (x # xs) 0" by blast
  then have no: "take (length old) (x # xs) \<noteq> old" by (simp add: occurs_at_0)
  have "\<forall>i. \<not> occurs_at old xs i"
  proof
    fix i
    from Cons.prems have "\<not> occurs_at old (x # xs) (Suc i)" by blast
    then show "\<not> occurs_at old xs i" by (simp add: occurs_at_Suc)
  qed
  then have "replace_first old new xs = xs" by (rule Cons.IH)
  with no show ?case by simp
qed

lemma replace_first_prefix:
  "take (length old) s = old \<Longrightarrow> replace_first old new s = new @ drop (length old) s"
  using replace_first_at [of old s 0 new] by (simp add: occurs_at_0)

lemma get_actual_deployments_keys_ok:
  assumes "\<forall>e\<in>set (load_deployments_json env service_name). one_colon (fst e)"
  shows "\<exists>m. snd (get_actual_deployments env service_name) = Inr m
           \<and> (\<forall>k. has_key m k \<longleftrightarrow>
                 (\<exists>e\<in>set (retained (load_deployments_json env service_name) service_name).
                     k = replace_first ''paasta-'' [] (namespace_of (fst e))))"
proof -
  let ?es = "retained (load_deployments_json env service_name) service_name"
  from get_actual_deployments_ok [OF assms] obtain m where
    m: "snd (get_actual_deployments env service_name) = Inr m"
    and mm: "map_of m = map_of (rev (map stored ?es))"
    by blast
  have "has_key m k \<longleftrightarrow> (\<exists>e\<in>set ?es. k = replace_first ''paasta-'' [] (namespace_of (fst e)))" for k
  proof -
    have "has_key m k \<longleftrightarrow> k \<in> dom (map_of (rev (map stored ?es)))"
      by (auto simp: has_key_def mm)
    also have "\<dots> \<longleftrightarrow> k \<in> fst ` set (rev (map stored ?es))"
      by (simp only: dom_map_of_conv_image_fst)
    also have "\<dots> \<longleftrightarrow> (\<exists>e\<in>set ?es. k = replace_first ''paasta-'' [] (namespace_of (fst e)))"
      by (auto simp: stored_def image_iff)
    finally show ?thesis .
  qed
  with m show ?thesis by blast
qed

text \<open>
  Claim C5, amended. The keys of the result are the namespaces of the entries of the
  service with the leftmost occurrence of \<open>paasta-\<close> removed, wherever it is: a
  namespace that starts with \<open>paasta-\<close> loses that prefix, one in which \<open>paasta-\<close>
  first occurs at index \<open>i\<close> loses those seven characters, and one without
  \<open>paasta-\<close> is kept. Key \<open>myservice:paasta-main\<close> with image
  \<open>services-myservice-a1b2c3d4\<close> gives \<open>main\<close> with \<open>a1b2c3d4\<close>.
\<close>

theorem get_actual_deployments_keys:
  "((\<forall>e\<in>set (load_deployments_json env service_name). one_colon (fst e)) \<longrightarrow>
      (\<exists>m. snd (get_actual_deployments env service_name) = Inr m
         \<and> (\<forall>k. has_key m k \<longleftrightarrow>
               (\<exists>e\<in>set (retained (load_deployments_json env service_name) service_name).
                   k = replace_first ''paasta-'' [] (namespace_of (fst e))))))
   \<and> (take 7 ns = ''paasta-'' \<longrightarrow> replace_first ''paasta-'' [] ns = drop 7 ns)
   \<and> (occurs_at ''paasta-'' ns i \<and> (\<forall>j<i. \<not> occurs_at ''paasta-'' ns j) \<longrightarrow>
        replace_first ''paasta-'' [] ns = take i ns @ drop (i + 7) ns)
   \<and> ((\<forall>i. \<not> occurs_at ''paasta-'' ns i) \<longrightarrow> replace_first ''paasta-'' [] ns = ns)
   \<and> get_actual_deployments
        (stub_collaborators\<lparr>load_deployments_json := \<lambda>s.
           [(''myservice:paasta-main'', ''services-myservice-a1b2c3d4'')]\<rparr>) ''myservice''
      = ([], Inr [(''main'', ''a1b2c3d4'')])"
proof -
  have len: "length ''paasta-'' = 7" by simp
  note prefix = replace_first_prefix [of "''paasta-''" ns "[]", unfolded len append_Nil]
  note at = replace_first_at [of "''paasta-''" ns i "[]", unfolded len append_Nil]
  show ?thesis
  proof (intro conjI impI)
    assume "\<forall>e\<in>set (load_deployments_json env service_name). one_colon (fst e)"
    then show "\<exists>m. snd (get_actual_deployments env service_name) = Inr m
         \<and> (\<forall>k. has_key m k \<longleftrightarrow>
               (\<exists>e\<in>set (retained (load_deployments_json env service_name) service_name).
                   k = replace_first ''paasta-'' [] (namespace_of (fst e))))"
      by (rule get_actual_deployments_keys_ok)
  next
    assume "take 7 ns = ''paasta-''"
    then show "replace_first ''paasta-'' [] ns = drop 7 ns"
      by (rule prefix)
  next
    assume "occurs_at ''paasta-'' ns i \<and> (\<forall>j<i. \<not> occurs_at ''paasta-'' ns j)"
    then show "replace_first ''paasta-'' [] ns = take i ns @ drop (i + 7) ns"
      using at by blast
  next
    assume "\<forall>i. \<not> occurs_at ''paasta-'' ns i"
    then show "replace_first ''paasta-'' [] ns = ns"
      by (rule replace_first_absent)
  next
    show "get_actual_deployments
        (stub_collaborators\<lparr>load_deployments_json := \<lambda>s.
           [(''myservice:paasta-main'', ''services-myservice-a1b2c3d4'')]\<rparr>) ''myservice''
      = ([], Inr [(''main'', ''a1b2c3d4'')])"
      by (simp add: get_actual_deployments_def slice_from_def Let_def)
  qed
qed

theorem get_actual_deployments_keys_witness:
  "occurs_at ''paasta-'' ''dev-paasta-main'' 4
   \<and> replace_first ''paasta-'' [] ''dev-paasta-main'' = ''dev-main''
   \<and> take 7 ''paasta-norcal-prod.main'' = ''paasta-''
   \<and> replace_first ''paasta-'' [] ''paasta-norcal-prod.main'' = ''norcal-prod.main''
   \<and> replace_first ''paasta-'' [] ''main'' = ''main''
   \<and> one_colon ''myservice:paasta-main''
   \<and> (\<exists>m. snd (get_actual_deployments
        (stub_collaborators\<lparr>load_deployments_json := \<lambda>s.
           [(''myservice:paasta-main'', ''services-myservice-a1b2c3d4'')]\<rparr>) ''myservice'') = Inr m
         \<and> has_key m ''main'')"
proof -
  let ?env = "stub_collaborators\<lparr>load_deployments_json := \<lambda>s.
           [(''myservice:paasta-main'', ''services-myservice-a1b2c3d4'')]\<rparr>"
  have o: "occurs_at ''paasta-'' ''dev-paasta-main'' 4"
    by (simp add: occurs_at_def)
  have "\<not> occurs_at ''paasta-'' ''dev-paasta-main'' j" if "j < 4" for j
  proof -
    from that have "j = 0 \<or> j = 1 \<or> j = 2 \<or> j = 3" by arith
    then show ?thesis by (auto simp: occurs_at_def)
  qed
  with o have first: "occurs_at ''paasta-'' ''dev-paasta-main'' 4
      \<and> (\<forall>j<4. \<not> occurs_at ''paasta-'' ''dev-paasta-main'' j)"
    by blast
  have a: "replace_first ''paasta-'' [] ''dev-paasta-main'' = ''dev-main''"
    using get_actual_deployments_keys [of ?env "''myservice''" "''dev-paasta-main''" 4,
        THEN conjunct2, THEN conjunct2, THEN conjunct1, THEN mp, OF first]
    by simp
  have p: "take 7 ''paasta-norcal-prod.main'' = ''paasta-''" by simp
  have b: "replace_first ''paasta-'' [] ''paasta-norcal-prod.main'' = ''norcal-prod.main''"
    using get_actual_deployments_keys [of ?env "''myservice''" "''paasta-norcal-prod.main''" 0,
        THEN conjunct2, THEN conjunct1, THEN mp, OF p]
    by simp
  have "\<forall>i. \<not> occurs_at ''paasta-'' ''main'' i"
    by (simp add: occurs_at_def)
  then have c: "replace_first ''paasta-'' [] ''main'' = ''main''"
    using get_actual_deployments_keys [of ?env "''myservice''" "''main''" 0,
        THEN conjunct2, THEN conjunct2, THEN conjunct2, THEN conjunct1]
    by blast
  have k: "one_colon ''myservice:paasta-main''" by (simp add: one_colon_def)
  then have hyp: "\<forall>e\<in>set (load_deployments_json ?env ''myservice''). one_colon (fst e)"
    by simp
  from get_actual_deployments_keys [of ?env "''myservice''" "''main''" 0, THEN conjunct1, THEN mp, OF hyp]
  obtain m where m: "snd (get_actual_deployments ?env ''myservice'') = Inr m"
    and keys: "\<forall>k. has_key m k \<longleftrightarrow>
               (\<exists>e\<in>set (retained (load_deployments_json ?env ''myservice'') ''myservice'').
                   k = replace_first ''paasta-'' [] (namespace_of (fst e)))"
    by blast
  have "has_key m ''main''"
    by (simp add: keys retained_def service_of_def namespace_of_def)
  with m o a p b c k show ?thesis by blast
qed

theorem strip_paasta_prefix_counterexample:
  "take 7 ''dev-paasta-main'' \<noteq> ''paasta-''
   \<and> strip_paasta_prefix ''dev-paasta-main'' = ''dev-paasta-main''
   \<and> get_actual_deployments
        (stub_collaborators\<lparr>load_deployments_json := \<lambda>s.
           [(''myservice:dev-paasta-main'', ''services-myservice-a1b2c3d4'')]\<rparr>) ''myservice''
      = ([], Inr [(''dev-main'', ''a1b2c3d4'')])"
  by (simp add: strip_paasta_prefix_def get_actual_deployments_def slice_from_def Let_def)

subsection \<open>The report for one cluster\<close>

lemma report_status_for_cluster_loop_ok:
  assumes "\<forall>t\<in>set ts. one_dot t"
    and "\<forall>t\<in>set ts. cluster_of t = cluster \<and> has_key actual t \<longrightarrow>
           execute_paasta_serviceinit_on_remote_master env ''status'' cluster service
             (instance_of t) verbose = Inr (status t)"
  shows "report_status_for_cluster_loop env service cluster ts actual verbose =
         (concat (map (\<lambda>t. render_status_line env (instance_of t)
                               (short_classify_line actual t (status t)))
                    (filter (\<lambda>t. cluster_of t = cluster) ts)), None)"
  using assms
proof (induction ts)
  case Nil
  then show ?case by simp
next
  case (Cons t ts)
  then have IH: "report_status_for_cluster_loop env service cluster ts actual verbose =
         (concat (map (\<lambda>t. render_status_line env (instance_of t)
                               (short_classify_line actual t (status t)))
                    (filter (\<lambda>t. cluster_of t = cluster) ts)), None)"
    by simp
  from Cons.prems have u: "unpack2 (str_split CHR ''.'' t) = Inr (cluster_of t, instance_of t)"
    by (simp add: unpack2_split_dot)
  show ?case
  proof (cases "cluster_of t = cluster")
    case False
    then show ?thesis by (simp add: u IH)
  next
    case True
    show ?thesis
    proof (cases "map_of actual t")
      case None
      with True show ?thesis
        by (simp add: u IH render_status_line_def short_classify_line_def)
    next
      case (Some v)
      with True Cons.prems(2) have
        "execute_paasta_serviceinit_on_remote_master env ''status'' cluster service
             (instance_of t) verbose = Inr (status t)"
        by (simp add: has_key_def)
      with True Some show ?thesis
        by (simp add: u IH render_status_line_def short_classify_line_def)
    qed
  qed
qed

lemma report_status_for_cluster_loop_append:
  "report_status_for_cluster_loop env service cluster (pre @ rest) actual verbose =
   (case report_status_for_cluster_loop env service cluster pre actual verbose of
      (out, None) \<Rightarrow>
        (case report_status_for_cluster_loop env service cluster rest actual verbose of
           (out', r) \<Rightarrow> (out @ out', r))
    | (out, Some e) \<Rightarrow> (out, Some e))"
proof (induction pre)
  case Nil
  then show ?case by (simp split: prod.splits)
next
  case (Cons t pre)
  then show ?case
    by (simp split: sum.splits prod.splits option.splits)
qed

lemma report_status_for_cluster_loop_probe_fails:
  assumes "one_dot t" and "cluster_of t = cluster" and "has_key actual t"
    and "execute_paasta_serviceinit_on_remote_master env ''status'' cluster service
           (instance_of t) verbose = Inl e"
  shows "report_status_for_cluster_loop env service cluster (t # post) actual verbose = ([], Some e)"
  using assms by (auto simp: unpack2_split_dot has_key_def)

lemma report_status_for_cluster_stops:
  assumes "one_dot t" and "cluster_of t = cluster" and "has_key actual t"
    and "execute_paasta_serviceinit_on_remote_master env ''status'' cluster service
           (instance_of t) verbose = Inl e"
    and "snd (report_status_for_cluster env service cluster pre actual verbose) = None"
  shows "report_status_for_cluster env service cluster (pre @ t # post) actual verbose =
         (fst (report_status_for_cluster env service cluster pre actual verbose), Some e)"
proof -
  obtain out r where l: "report_status_for_cluster_loop env service cluster pre actual verbose = (out, r)"
    by (cases "report_status_for_cluster_loop env service cluster pre actual verbose")
  with assms(5) have "r = None" by (simp add: report_status_for_cluster_def)
  with l show ?thesis
    by (simp add: report_status_for_cluster_def report_status_for_cluster_loop_append
          report_status_for_cluster_loop_probe_fails [OF assms(1-4)]
          del: report_status_for_cluster_loop.simps)
qed

lemma report_status_for_cluster_raises:
  assumes "t \<in> set ts" and "one_dot t" and "cluster_of t = cluster" and "has_key actual t"
    and "execute_paasta_serviceinit_on_remote_master env ''status'' cluster service
           (instance_of t) verbose = Inl e"
  shows "snd (report_status_for_cluster env service cluster ts actual verbose) \<noteq> None"
proof -
  from assms(1) obtain pre post where ts: "ts = pre @ t # post"
    by (auto simp: in_set_conv_decomp)
  obtain out r where l: "report_status_for_cluster_loop env service cluster pre actual verbose = (out, r)"
    by (cases "report_status_for_cluster_loop env service cluster pre actual verbose")
  show ?thesis
    by (cases r)
       (simp_all add: ts l report_status_for_cluster_def report_status_for_cluster_loop_append
          report_status_for_cluster_loop_probe_fails [OF assms(2-5)]
          del: report_status_for_cluster_loop.simps)
qed

lemma report_status_loop_raises:
  "\<exists>c\<in>set cs. passes cluster_filter c
      \<and> snd (report_status_for_cluster env service c ts actual verbose) \<noteq> None \<Longrightarrow>
   snd (report_status_loop env service cs ts actual cluster_filter verbose) \<noteq> None"
proof (induction cs)
  case Nil
  then show ?case by simp
next
  case (Cons c cs)
  obtain out r where c: "report_status_for_cluster env service c ts actual verbose = (out, r)"
    by (cases "report_status_for_cluster env service c ts actual verbose")
  obtain out' r' where cs: "report_status_loop env service cs ts actual cluster_filter verbose = (out', r')"
    by (cases "report_status_loop env service cs ts actual cluster_filter verbose")
  show ?case
  proof (cases "passes cluster_filter c")
    case False
    with Cons have "snd (report_status_loop env service cs ts actual cluster_filter verbose) \<noteq> None"
      by auto
    with False show ?thesis by (simp add: passes_def)
  next
    case True
    show ?thesis
    proof (cases r)
      case (Some e)
      with True c show ?thesis by (simp add: passes_def)
    next
      case None
      with Cons c have "snd (report_status_loop env service cs ts actual cluster_filter verbose) \<noteq> None"
        by auto
      with True None c cs show ?thesis by (simp add: passes_def)
    qed
  qed
qed

lemma report_status_raises:
  assumes "t \<in> set ts" and "one_dot t" and "has_key actual t"
    and "passes cluster_filter (cluster_of t)"
    and "execute_paasta_serviceinit_on_remote_master env ''status'' (cluster_of t) service
           (instance_of t) verbose = Inl e"
  shows "snd (report_status env service ts actual cluster_filter verbose) \<noteq> None"
proof (cases "\<forall>t\<in>set ts. one_dot t")
  case False
  then show ?thesis by (simp add: report_status_fails)
next
  case True
  let ?dcs = "first_occurrences (map cluster_of (filter (has_key actual) ts))"
  from True have d: "list_deployed_clusters ts actual = Inr ?dcs"
    by (rule list_deployed_clusters_ok)
  from assms(1,3) have "cluster_of t \<in> set ?dcs"
    by (auto simp: set_first_occurrences)
  moreover have "snd (report_status_for_cluster env service (cluster_of t) ts actual verbose) \<noteq> None"
    using assms(1,2) refl assms(3,5) by (rule report_status_for_cluster_raises)
  ultimately have "snd (report_status_loop env service ?dcs ts actual cluster_filter verbose) \<noteq> None"
    using assms(4) by (intro report_status_loop_raises) blast
  then obtain out e' where "report_status_loop env service ?dcs ts actual cluster_filter verbose = (out, Some e')"
    by (cases "report_status_loop env service ?dcs ts actual cluster_filter verbose") auto
  with d show ?thesis by (simp add: report_status_def)
qed

text \<open>
  Claim C3, amended. When every target has one \<open>.\<close> and the probe returns for the
  deployed targets of the cluster, \<^verbatim>\<open>report_status_for_cluster\<close> prints, after the
  cluster header, one status for each target of that cluster and none for the targets
  of other clusters, in the order of the targets: deployed with the first eight
  characters of the stored version and the text of the probe when the target is a key
  of the actual deployments, not deployed otherwise.
\<close>

theorem report_status_for_cluster_status_lines:
  assumes "\<forall>t\<in>set targets. one_dot t"
    and "\<forall>t\<in>set targets. cluster_of t = cluster \<and> has_key actual t \<longrightarrow>
           execute_paasta_serviceinit_on_remote_master env ''status'' cluster service
             (instance_of t) verbose = Inr (status t)"
  shows "report_status_for_cluster env service cluster targets actual verbose =
         ([ [], ''cluster: '' @ cluster]
          @ concat (map (\<lambda>t. render_status_line env (instance_of t)
                                (short_classify_line actual t (status t)))
                      (filter (\<lambda>t. cluster_of t = cluster) targets)),
          None)"
  using report_status_for_cluster_loop_ok [OF assms]
  by (simp add: report_status_for_cluster_def)

theorem report_status_for_cluster_status_lines_witness:
  "one_dot ''norcal-prod.main'' \<and> one_dot ''nova-prod.main'' \<and> one_dot ''norcal-prod.canary''
   \<and> report_status_for_cluster stub_collaborators ''myservice'' ''norcal-prod''
        [''norcal-prod.main'', ''nova-prod.main'', ''norcal-prod.canary'']
        [(''norcal-prod.main'', ''a1b2c3d4e5f6'')] False
      = ([ [], ''cluster: norcal-prod'',
          ''  instance: main'', ''    Git sha:    a1b2c3d4'', ''    ok'',
          ''  instance: canary'', ''    Git sha:    None''], None)"
proof -
  let ?ts = "[''norcal-prod.main'', ''nova-prod.main'', ''norcal-prod.canary'']"
  let ?actual = "[(''norcal-prod.main'', ''a1b2c3d4e5f6'')]"
  have dots: "one_dot ''norcal-prod.main'' \<and> one_dot ''nova-prod.main'' \<and> one_dot ''norcal-prod.canary''"
    by (simp add: one_dot_def)
  then have wf: "\<forall>t\<in>set ?ts. one_dot t" by simp
  have probes: "\<forall>t\<in>set ?ts. cluster_of t = ''norcal-prod'' \<and> has_key ?actual t \<longrightarrow>
           execute_paasta_serviceinit_on_remote_master stub_collaborators ''status''
             ''norcal-prod'' ''myservice'' (instance_of t) False = Inr ((\<lambda>t. ''ok'') t)"
    by (simp add: stub_collaborators_def)
  have "report_status_for_cluster stub_collaborators ''myservice'' ''norcal-prod'' ?ts ?actual False
      = ([ [], ''cluster: norcal-prod'',
          ''  instance: main'', ''    Git sha:    a1b2c3d4'', ''    ok'',
          ''  instance: canary'', ''    Git sha:    None''], None)"
    unfolding report_status_for_cluster_status_lines [OF wf probes]
    by (simp add: cluster_of_def instance_of_def render_status_line_def short_classify_line_def
          print_instance_def rstrip_def is_space_def stub_collaborators_def)
  with dots show ?thesis by simp
qed

theorem classify_line_counterexample:
  "report_status stub_collaborators ''myservice'' [''norcal-prod.main'', ''nova-prod.main'']
        [(''norcal-prod.main'', ''a1b2c3d4e5f6'')] None False
      = ([''Pipeline: https://jenkins.yelpcorp.com/view/services-myservice'',
          [], ''cluster: norcal-prod'',
          ''  instance: main'', ''    Git sha:    a1b2c3d4'', ''    ok'',
          [] ], None)
   \<and> classify_line [(''norcal-prod.main'', ''a1b2c3d4e5f6'')] ''norcal-prod.main'' ''ok''
      = Deployed ''a1b2c3d4e5f6'' ''ok''
   \<and> render_status_line stub_collaborators ''main'' (Deployed ''a1b2c3d4e5f6'' ''ok'')
      = [''  instance: main'', ''    Git sha:    a1b2c3d4e5f6'', ''    ok'']
   \<and> classify_line [(''norcal-prod.main'', ''a1b2c3d4e5f6'')] ''nova-prod.main'' ''ok''
      = NotDeployed
   \<and> render_status_line stub_collaborators ''main'' NotDeployed
      = [''  instance: main'', ''    Git sha:    None'']"
  by (simp add: report_status_def list_deployed_clusters_def has_key_def
        report_status_for_cluster_def report_bogus_filters_def
        classify_line_def render_status_line_def
        print_instance_def rstrip_def is_space_def stub_collaborators_def)

subsection \<open>A probe that raises\<close>

text \<open>
  Claim C6, amended. The exception of a probe is not caught. When the probe raises
  for a deployed instance of the cluster, \<^verbatim>\<open>report_status_for_cluster\<close> stops there
  with that exception, having printed what it prints for the targets before it and
  nothing for that instance or the ones after it; and \<^verbatim>\<open>report_status\<close> raises
  whenever the probe raises for a deployed instance of a cluster that passes the
  filter.
\<close>

theorem probe_failure_aborts_report:
  "(one_dot t \<and> cluster_of t = cluster \<and> has_key actual t
      \<and> execute_paasta_serviceinit_on_remote_master env ''status'' cluster service
           (instance_of t) verbose = Inl e
      \<and> snd (report_status_for_cluster env service cluster pre actual verbose) = None
    \<longrightarrow> report_status_for_cluster env service cluster (pre @ t # post) actual verbose =
          (fst (report_status_for_cluster env service cluster pre actual verbose), Some e))
   \<and> (t \<in> set targets \<and> one_dot t \<and> has_key actual t \<and> passes cluster_filter (cluster_of t)
      \<and> execute_paasta_serviceinit_on_remote_master env ''status'' (cluster_of t) service
           (instance_of t) verbose = Inl e
    \<longrightarrow> snd (report_status_for_cluster env service (cluster_of t) targets actual verbose) \<noteq> None
        \<and> snd (report_status env service targets actual cluster_filter verbose) \<noteq> None)"
proof (intro conjI impI)
  assume "one_dot t \<and> cluster_of t = cluster \<and> has_key actual t
      \<and> execute_paasta_serviceinit_on_remote_master env ''status'' cluster service
           (instance_of t) verbose = Inl e
      \<and> snd (report_status_for_cluster env service cluster pre actual verbose) = None"
  then show "report_status_for_cluster env service cluster (pre @ t # post) actual verbose =
          (fst (report_status_for_cluster env service cluster pre actual verbose), Some e)"
    by (intro report_status_for_cluster_stops) simp_all
next
  assume a: "t \<in> set targets \<and> one_dot t \<and> has_key actual t \<and> passes cluster_filter (cluster_of t)
      \<and> execute_paasta_serviceinit_on_remote_master env ''status'' (cluster_of t) service
           (instance_of t) verbose = Inl e"
  then show "snd (report_status_for_cluster env service (cluster_of t) targets actual verbose) \<noteq> None"
    by (intro report_status_for_cluster_raises [where t = t and e = e]) simp_all
  from a show "snd (report_status env service targets actual cluster_filter verbose) \<noteq> None"
    by (intro report_status_raises [where t = t and e = e]) simp_all
qed

theorem probe_failure_aborts_report_witness:
  "one_dot ''norcal-prod.canary''
   \<and> report_status_for_cluster
        (stub_collaborators\<lparr>execute_paasta_serviceinit_on_remote_master :=
           \<lambda>subcommand cluster service instance verbose.
             if instance = ''canary'' then Inl (ProbeError ''no master'') else Inr ''ok''\<rparr>)
        ''myservice'' ''norcal-prod''
        [''norcal-prod.main'', ''norcal-prod.canary'', ''norcal-prod.extra'']
        [(''norcal-prod.main'', ''a1b2c3d4''), (''norcal-prod.canary'', ''a1b2c3d4''),
         (''norcal-prod.extra'', ''a1b2c3d4'')] False
      = ([ [], ''cluster: norcal-prod'',
          ''  instance: main'', ''    Git sha:    a1b2c3d4'', ''    ok''],
         Some (ProbeError ''no master''))"
proof -
  let ?env = "stub_collaborators\<lparr>execute_paasta_serviceinit_on_remote_master :=
           \<lambda>subcommand cluster service instance verbose.
             if instance = ''canary'' then Inl (ProbeError ''no master'') else Inr ''ok''\<rparr>"
  let ?actual = "[(''norcal-prod.main'', ''a1b2c3d4''), (''norcal-prod.canary'', ''a1b2c3d4''),
         (''norcal-prod.extra'', ''a1b2c3d4'')]"
  have pre: "report_status_for_cluster ?env ''myservice'' ''norcal-prod'' [''norcal-prod.main'']
        ?actual False
      = ([ [], ''cluster: norcal-prod'',
          ''  instance: main'', ''    Git sha:    a1b2c3d4'', ''    ok''], None)"
    by (simp add: report_status_for_cluster_def print_instance_def rstrip_def is_space_def
          stub_collaborators_def)
  have d: "one_dot ''norcal-prod.canary''" by (simp add: one_dot_def)
  have hyp: "one_dot ''norcal-prod.canary'' \<and> cluster_of ''norcal-prod.canary'' = ''norcal-prod''
      \<and> has_key ?actual ''norcal-prod.canary''
      \<and> execute_paasta_serviceinit_on_remote_master ?env ''status'' ''norcal-prod'' ''myservice''
           (instance_of ''norcal-prod.canary'') False = Inl (ProbeError ''no master'')
      \<and> snd (report_status_for_cluster ?env ''myservice'' ''norcal-prod'' [''norcal-prod.main'']
               ?actual False) = None"
    by (simp add: pre d cluster_of_def instance_of_def has_key_def)
  from probe_failure_aborts_report [THEN conjunct1, THEN mp, OF hyp, of "[''norcal-prod.extra'']"]
  have "report_status_for_cluster ?env ''myservice'' ''norcal-prod''
        ([''norcal-prod.main''] @ ''norcal-prod.canary'' # [''norcal-prod.extra'']) ?actual False
      = ([ [], ''cluster: norcal-prod'',
          ''  instance: main'', ''    Git sha:    a1b2c3d4'', ''    ok''],
         Some (ProbeError ''no master''))"
    by (simp only: pre fst_conv)
  with d show ?thesis by simp
qed

theorem probe_failure_isolated_counterexample:
  "report_status
        (stub_collaborators\<lparr>execute_paasta_serviceinit_on_remote_master :=
           \<lambda>subcommand cluster service instance verbose.
             if instance = ''main'' \<and> cluster = ''norcal-prod''
             then Inl (ProbeError ''no master'') else Inr ''ok''\<rparr>)
        ''myservice''
        [''norcal-prod.main'', ''norcal-prod.canary'', ''nova-prod.main'']
        [(''norcal-prod.main'', ''a1b2c3d4''), (''norcal-prod.canary'', ''a1b2c3d4''),
         (''nova-prod.main'', ''a1b2c3d4'')] None False
      = ([''Pipeline: https://jenkins.yelpcorp.com/view/services-myservice'',
          [], ''cluster: norcal-prod''],
         Some (ProbeError ''no master''))"
  by (simp add: report_status_def list_deployed_clusters_def has_key_def
        report_status_for_cluster_def stub_collaborators_def)

end
